theory Spec2Isabelle
  imports Main "HOL-Library.Word" "HOL-Library.Multiset" "HOL-Library.AList"
begin

unbundle bit_operations_syntax

section \<open>Request sizing constants\<close>

text \<open>
  The constant block at the head of the state download manager. Go evaluates
  untyped integer constant expressions exactly, with truncating division and
  left-to-right evaluation of operators of equal precedence, so
  \<^verbatim>\<open>maxRequestSize / (24 * 1024) * 4\<close> is \<open>(maxRequestSize / 24576) * 4\<close>.
  All operands are non-negative, where truncating division and \<open>div\<close> agree.
\<close>

definition minRequestSize :: int where
  "minRequestSize = 64 * 1024"

definition maxRequestSize :: int where
  "maxRequestSize = 512 * 1024"

definition maxCodeRequestCount :: int where
  "maxCodeRequestCount = (maxRequestSize div (24 * 1024)) * 4"

definition maxTrieRequestCount :: int where
  "maxTrieRequestCount = maxRequestSize div 512"

section \<open>Go values: bytes, hashes, maps, faults\<close>

type_synonym byte = "8 word"
type_synonym bytes = "byte list"
type_synonym u64 = "64 word"

text \<open>
  \<^verbatim>\<open>common.Hash\<close> is a 32-byte array read as a big-endian unsigned number:
  \<^verbatim>\<open>h.Big()\<close> is \<open>uint h\<close>, and \<^verbatim>\<open>common.BigToHash(b)\<close> keeps the low 256 bits
  of the magnitude of \<open>b\<close>.
\<close>

type_synonym hash = "256 word"

definition Big :: "hash \<Rightarrow> int" where
  "Big h = uint h"

definition BigToHash :: "int \<Rightarrow> hash" where
  "BigToHash b = word_of_int \<bar>b\<bar>"

definition MaxHash :: hash where
  "MaxHash = word_of_int (2 ^ 256 - 1)"

text \<open>
  What a call can do besides returning: a runtime panic of Go (a nil pointer
  dereference, a write into a nil map, an index or slice bound out of range, a
  negative capacity passed to \<^verbatim>\<open>make\<close>, an explicit \<^verbatim>\<open>panic(err)\<close>), or a loop
  that does not come to an end (the supply of random draws or of loop rounds
  given to the model is used up).
\<close>

datatype fault = NilDeref | NilMapWrite | IndexOutOfRange | MakeSliceCap | ExplicitPanic

datatype 'a outcome = Returns 'a | Panics fault | Diverges

fun bindO :: "'a outcome \<Rightarrow> ('a \<Rightarrow> 'b outcome) \<Rightarrow> 'b outcome" where
  "bindO (Returns x) f = f x"
| "bindO (Panics e) f = Panics e"
| "bindO Diverges f = Diverges"

text \<open>
  A Go map is an association list with distinct keys, or \<open>None\<close> for the nil map.
  The order of the list stands for the order in which \<^verbatim>\<open>range\<close> happens to visit the
  entries. Reading, \<^verbatim>\<open>len\<close>, \<^verbatim>\<open>range\<close> and \<^verbatim>\<open>delete\<close> treat the nil map as empty;
  assigning to an entry of the nil map panics.
\<close>

type_synonym ('k, 'v) gomap = "('k \<times> 'v) list option"

definition gm_items :: "('k, 'v) gomap \<Rightarrow> ('k \<times> 'v) list" where
  "gm_items m = (case m of None \<Rightarrow> [] | Some xs \<Rightarrow> xs)"

definition gm_get :: "('k, 'v) gomap \<Rightarrow> 'k \<Rightarrow> 'v option" where
  "gm_get m k = map_of (gm_items m) k"

definition gm_has :: "('k, 'v) gomap \<Rightarrow> 'k \<Rightarrow> bool" where
  "gm_has m k = (gm_get m k \<noteq> None)"

definition gm_len :: "('k, 'v) gomap \<Rightarrow> nat" where
  "gm_len m = length (gm_items m)"

definition gm_delete :: "'k \<Rightarrow> ('k, 'v) gomap \<Rightarrow> ('k, 'v) gomap" where
  "gm_delete k m = map_option (AList.delete k) m"

definition gm_put :: "'k \<Rightarrow> 'v \<Rightarrow> ('k, 'v) gomap \<Rightarrow> ('k, 'v) gomap outcome" where
  "gm_put k v m = (case m of None \<Rightarrow> Panics NilMapWrite
                   | Some xs \<Rightarrow> Returns (Some (AList.update k v xs)))"

definition gm_make :: "('k, 'v) gomap" where
  "gm_make = Some []"

section \<open>Accounts and tasks\<close>

record StateAccount =
  Nonce :: u64
  Balance :: int
  Root :: hash
  CodeHash :: bytes

text \<open>
  The node generators (\<^verbatim>\<open>genBatch\<close>, \<^verbatim>\<open>genTrie\<close>) of a task belong to the trie and
  database collaborators and carry no registry data; the records leave them out.
\<close>

record storageTask =
  st_Next :: hash
  st_Last :: hash
  st_root :: hash
  st_requested :: bool
  st_done :: bool

record accountResponse =
  r_hashes :: "hash list"
  r_accounts :: "StateAccount list"
  r_cont :: bool

record accountTask =
  task_id :: u64
  Next :: hash
  Last :: hash
  SubTasks :: "(hash, storageTask list) gomap"
  pend :: int
  needCode :: "bool list"
  needState :: "bool list"
  needHeal :: "bool list"
  a_codeTasks :: "(hash, unit) gomap"
  stateTasks :: "(hash, hash) gomap"
  requested :: bool
  task_done :: bool
  res :: "accountResponse option"

text \<open>
  A pointer into the registry is the key it is stored under: \<open>b_mainTask\<close> is the
  key of the account task in \<^verbatim>\<open>tasks.accountTasks\<close>, \<open>b_subtask\<close> the account hash
  and position of the sub-task in that task's \<^verbatim>\<open>SubTasks\<close>, \<open>h_task\<close> the key of
  the pending pool in \<^verbatim>\<open>tasks.healer\<close>; \<open>None\<close> is the nil pointer.
\<close>

record storageTaskBundle =
  b_id :: u64
  b_accounts :: "hash list"
  b_roots :: "hash list"
  b_mainTask :: "u64 option"
  b_subtask :: "(hash \<times> nat) option"
  b_origin :: hash
  b_limit :: hash

type_synonym TrieNodePathSet = "bytes list"

text \<open>
  A trie node path is a Go string of nibbles, kept as its bytes. The values of
  the \<^verbatim>\<open>healer\<close> map are pointers that the code can leave nil, so the map holds
  options.
\<close>

record healTask =
  h_id :: u64
  trieTasks :: "(bytes, hash) gomap"
  h_codeTasks :: "(hash, unit) gomap"
  h_paths :: "bytes list"
  h_hashes :: "hash list"
  h_pathsets :: "TrieNodePathSet list"
  h_task :: "u64 option"
  h_root :: hash
  byteCodeReq :: bool

section \<open>Task registry\<close>

record tasks =
  accountTasks :: "(u64, accountTask) gomap"
  storageTasks :: "(u64, storageTaskBundle) gomap"
  codeTasks :: "(hash, unit) gomap"
  healer :: "(u64, healTask option) gomap"
  t_snapped :: bool

definition newTasks :: tasks where
  "newTasks = \<lparr> accountTasks = gm_make, storageTasks = gm_make, codeTasks = gm_make,
                healer = gm_make, t_snapped = False \<rparr>"

definition addAccountTask :: "u64 \<Rightarrow> accountTask \<Rightarrow> tasks \<Rightarrow> tasks outcome" where
  "addAccountTask k ct t =
     bindO (gm_put k ct (accountTasks t)) (\<lambda>m. Returns (t\<lparr>accountTasks := m\<rparr>))"

definition deleteAccountTask :: "u64 \<Rightarrow> tasks \<Rightarrow> tasks" where
  "deleteAccountTask k t = t\<lparr>accountTasks := gm_delete k (accountTasks t)\<rparr>"

definition addCodeTask :: "hash \<Rightarrow> tasks \<Rightarrow> tasks outcome" where
  "addCodeTask h t =
     bindO (gm_put h () (codeTasks t)) (\<lambda>m. Returns (t\<lparr>codeTasks := m\<rparr>))"

definition deleteCodeTask :: "hash \<Rightarrow> tasks \<Rightarrow> tasks" where
  "deleteCodeTask h t = t\<lparr>codeTasks := gm_delete h (codeTasks t)\<rparr>"

definition addStorageTaskBundle :: "u64 \<Rightarrow> storageTaskBundle \<Rightarrow> tasks \<Rightarrow> tasks outcome" where
  "addStorageTaskBundle k b t =
     bindO (gm_put k b (storageTasks t)) (\<lambda>m. Returns (t\<lparr>storageTasks := m\<rparr>))"

definition deleteStorageTaskBundle :: "u64 \<Rightarrow> tasks \<Rightarrow> tasks" where
  "deleteStorageTaskBundle k t = t\<lparr>storageTasks := gm_delete k (storageTasks t)\<rparr>"

definition addHealerTask :: "u64 \<Rightarrow> healTask option \<Rightarrow> tasks \<Rightarrow> tasks outcome" where
  "addHealerTask k h t =
     bindO (gm_put k h (healer t)) (\<lambda>m. Returns (t\<lparr>healer := m\<rparr>))"

definition deleteHealerTask :: "u64 \<Rightarrow> tasks \<Rightarrow> tasks" where
  "deleteHealerTask k t = t\<lparr>healer := gm_delete k (healer t)\<rparr>"

text \<open>
  The part of \<^verbatim>\<open>FullStateDownloadManager\<close> that batch assembly and the error
  path work on, and that a sync status is loaded into: the four registries, the
  root being synced, the trie-sync scheduler (a collaborator, kept abstract as
  \<open>'sch\<close>) and the progress counters (the byte counters, of type
  \<^verbatim>\<open>common.StorageSize\<close>, as integers). A task that several registries point to is
  held by each of them as it was when it was added there.
\<close>

record 'sch manager =
  m_tasks :: tasks
  requesting :: tasks
  processing :: tasks
  retries :: tasks
  root :: hash
  snapped :: bool
  scheduler :: 'sch
  accountSynced :: u64
  accountBytes :: int
  bytecodeSynced :: u64
  bytecodeBytes :: int
  storageSynced :: u64
  storageBytes :: int
  trienodeHealSynced :: u64
  trienodeHealBytes :: int
  bytecodeHealSynced :: u64
  bytecodeHealBytes :: int

definition newFullStateDownloadManager :: "'sch \<Rightarrow> 'sch manager" where
  "newFullStateDownloadManager sch =
     \<lparr> m_tasks = newTasks, requesting = newTasks, processing = newTasks,
       retries = newTasks, root = 0, snapped = False, scheduler = sch,
       accountSynced = 0, accountBytes = 0, bytecodeSynced = 0, bytecodeBytes = 0,
       storageSynced = 0, storageBytes = 0, trienodeHealSynced = 0, trienodeHealBytes = 0,
       bytecodeHealSynced = 0, bytecodeHealBytes = 0 \<rparr>"

section \<open>Error path\<close>

text \<open>
  \<^verbatim>\<open>HandleRequestError\<close>: the account tasks and the code hashes are deleted from
  \<^verbatim>\<open>requesting\<close> and added to \<^verbatim>\<open>retries\<close>; the heal task and the bytecode heal
  task are added to \<^verbatim>\<open>retries\<close> and deleted from \<^verbatim>\<open>requesting\<close>; the storage
  bundle is added to \<^verbatim>\<open>requesting\<close> and deleted from \<^verbatim>\<open>retries\<close>, as the source
  has it. The stream id and the error are not used by the body.
\<close>

fun errAccounts :: "accountTask list \<Rightarrow> 'sch manager \<Rightarrow> 'sch manager outcome" where
  "errAccounts [] s = Returns s"
| "errAccounts (task # rest) s =
     bindO (addAccountTask (task_id task) task (retries s)) (\<lambda>rt.
       errAccounts rest
         (s\<lparr>requesting := deleteAccountTask (task_id task) (requesting s), retries := rt\<rparr>))"

fun errCodes :: "hash list \<Rightarrow> 'sch manager \<Rightarrow> 'sch manager outcome" where
  "errCodes [] s = Returns s"
| "errCodes (code # rest) s =
     bindO (addCodeTask code (retries s)) (\<lambda>rt.
       errCodes rest (s\<lparr>requesting := deleteCodeTask code (requesting s), retries := rt\<rparr>))"

definition errStorages :: "storageTaskBundle option \<Rightarrow> 'sch manager \<Rightarrow> 'sch manager outcome" where
  "errStorages storages s =
     (case storages of None \<Rightarrow> Returns s
      | Some b \<Rightarrow>
          bindO (addStorageTaskBundle (b_id b) b (requesting s)) (\<lambda>rq.
            Returns (s\<lparr>requesting := rq, retries := deleteStorageTaskBundle (b_id b) (retries s)\<rparr>)))"

definition errHeal :: "healTask option \<Rightarrow> 'sch manager \<Rightarrow> 'sch manager outcome" where
  "errHeal healtask s =
     (case healtask of None \<Rightarrow> Returns s
      | Some h \<Rightarrow>
          bindO (addHealerTask (h_id h) (Some h) (retries s)) (\<lambda>rt.
            Returns (s\<lparr>retries := rt, requesting := deleteHealerTask (h_id h) (requesting s)\<rparr>)))"

definition HandleRequestError ::
  "accountTask list \<Rightarrow> hash list \<Rightarrow> storageTaskBundle option \<Rightarrow> healTask option \<Rightarrow>
   healTask option \<Rightarrow> 'sch manager \<Rightarrow> 'sch manager outcome" where
  "HandleRequestError accounts codes storages healtask codetask s =
     bindO (errAccounts accounts s) (\<lambda>s1.
     bindO (errCodes codes s1) (\<lambda>s2.
     bindO (errStorages storages s2) (\<lambda>s3.
     bindO (errHeal healtask s3) (\<lambda>s4.
     errHeal codetask s4))))"

section \<open>Slim account encoding\<close>

text \<open>
  \<^verbatim>\<open>common.BytesToHash\<close> reads a byte string as a big-endian number: a string
  longer than 32 bytes is cropped from the left, a shorter one is padded on the
  left, so the hash is the number modulo \<open>2 ^ 256\<close>. \<^verbatim>\<open>h[:]\<close> is the 32 bytes of
  \<open>h\<close>, most significant first.
\<close>

definition be_nat :: "bytes \<Rightarrow> nat" where
  "be_nat bs = foldl (\<lambda>a b. a * 256 + unat b) 0 bs"

primrec be_bytes :: "nat \<Rightarrow> nat \<Rightarrow> bytes" where
  "be_bytes 0 n = []"
| "be_bytes (Suc k) n = be_bytes k (n div 256) @ [word_of_nat (n mod 256)]"

definition BytesToHash :: "bytes \<Rightarrow> hash" where
  "BytesToHash bs = word_of_nat (be_nat bs)"

definition HashBytes :: "hash \<Rightarrow> bytes" where
  "HashBytes h = be_bytes 32 (unat h)"

text \<open>
  \<^verbatim>\<open>types.EmptyRootHash\<close> (the root of the empty trie) and \<^verbatim>\<open>types.EmptyCodeHash\<close>
  (the Keccak-256 hash of the empty string), the two constants of go-ethereum's
  \<^verbatim>\<open>core/types\<close> that the slim format abbreviates.
\<close>

definition EmptyRootHash :: hash where
  "EmptyRootHash = 0x56e81f171bcc55a6ff8345e692c0f86e5b48e01b996cadc001622fb5e363b421"

definition EmptyCodeHash :: hash where
  "EmptyCodeHash = 0xc5d2460186f7233c927e7db2dcc703c0e500b653ca82273b7bfad8045d85a470"

record SlimAccount =
  slimNonce :: u64
  slimBalance :: int
  slimRoot :: bytes
  slimCodeHash :: bytes

text \<open>
  The RLP library is a collaborator: \<^verbatim>\<open>rlp.EncodeToBytes\<close> and \<^verbatim>\<open>rlp.DecodeBytes\<close>
  at the two struct types are the four functions of a codec, \<open>None\<close> being the
  error return.
\<close>

record rlpCodec =
  encodeSlim :: "SlimAccount \<Rightarrow> bytes option"
  decodeSlim :: "bytes \<Rightarrow> SlimAccount option"
  encodeAccount :: "StateAccount \<Rightarrow> bytes option"
  decodeAccount :: "bytes \<Rightarrow> StateAccount option"

definition toSlim :: "StateAccount \<Rightarrow> SlimAccount" where
  "toSlim account =
     \<lparr> slimNonce = Nonce account, slimBalance = Balance account,
       slimRoot = (if Root account \<noteq> EmptyRootHash then HashBytes (Root account) else []),
       slimCodeHash = (if CodeHash account \<noteq> HashBytes EmptyCodeHash then CodeHash account else []) \<rparr>"

definition SlimAccountRLP :: "rlpCodec \<Rightarrow> StateAccount \<Rightarrow> bytes outcome" where
  "SlimAccountRLP rlp account =
     (case encodeSlim rlp (toSlim account) of
        None \<Rightarrow> Panics ExplicitPanic
      | Some data \<Rightarrow> Returns data)"

definition fromSlim :: "SlimAccount \<Rightarrow> StateAccount" where
  "fromSlim slim =
     \<lparr> Nonce = slimNonce slim, Balance = slimBalance slim,
       Root = (if length (slimRoot slim) = 0 then EmptyRootHash else BytesToHash (slimRoot slim)),
       CodeHash = (if length (slimCodeHash slim) = 0 then HashBytes EmptyCodeHash
                   else slimCodeHash slim) \<rparr>"

definition FullAccount :: "rlpCodec \<Rightarrow> bytes \<Rightarrow> StateAccount option" where
  "FullAccount rlp data =
     (case decodeSlim rlp data of None \<Rightarrow> None | Some slim \<Rightarrow> Some (fromSlim slim))"

definition FullAccountRLP :: "rlpCodec \<Rightarrow> bytes \<Rightarrow> bytes option" where
  "FullAccountRLP rlp data =
     (case FullAccount rlp data of None \<Rightarrow> None | Some account \<Rightarrow> encodeAccount rlp account)"

section \<open>Heal callback\<close>

text \<open>
  The shared \<^verbatim>\<open>stateWriter\<close> batch is a collaborator of type \<open>'b\<close>: what
  \<^verbatim>\<open>rawdb.WriteAccountSnapshot\<close> and \<^verbatim>\<open>rawdb.WriteStorageSnapshot\<close> put into it, its
  \<^verbatim>\<open>ValueSize\<close>, and \<^verbatim>\<open>Write\<close> (whose error the callback ignores) and \<^verbatim>\<open>Reset\<close>.
  \<^verbatim>\<open>common.StorageSize\<close> is a float64; the byte counters are kept as exact
  integers.
\<close>

record 'b batchOps =
  WriteAccountSnapshot :: "'b \<Rightarrow> hash \<Rightarrow> bytes \<Rightarrow> 'b"
  WriteStorageSnapshot :: "'b \<Rightarrow> hash \<Rightarrow> hash \<Rightarrow> bytes \<Rightarrow> 'b"
  ValueSize :: "'b \<Rightarrow> int"
  Write :: "'b \<Rightarrow> 'b"
  Reset :: "'b \<Rightarrow> 'b"

record 'b healState =
  stateWriter :: 'b
  accountHealed :: u64
  accountHealedBytes :: int
  storageHealed :: u64
  storageHealedBytes :: int

definition IdealBatchSize :: int where
  "IdealBatchSize = 100 * 1024"

definition HashLength :: int where
  "HashLength = 32"

definition flushStateWriter :: "'b batchOps \<Rightarrow> 'b healState \<Rightarrow> 'b healState" where
  "flushStateWriter ops s =
     (if ValueSize ops (stateWriter s) > IdealBatchSize
      then s\<lparr>stateWriter := Reset ops (Write ops (stateWriter s))\<rparr>
      else s)"

definition healStorage :: "'b batchOps \<Rightarrow> bytes list \<Rightarrow> bytes \<Rightarrow> 'b healState \<Rightarrow> 'b healState" where
  "healStorage ops paths v s =
     (if length paths = 2
      then s\<lparr>stateWriter := WriteStorageSnapshot ops (stateWriter s)
                               (BytesToHash (paths ! 0)) (BytesToHash (paths ! 1)) v,
             storageHealed := storageHealed s + 1,
             storageHealedBytes := storageHealedBytes s + (1 + 2 * HashLength + int (length v))\<rparr>
      else s)"

text \<open>
  \<^verbatim>\<open>onHealState\<close> returns the error (always nil, \<open>None\<close>) and the new state. With
  one path and a value that does not decode it returns at once, before the
  storage branch and the flush.
\<close>

definition onHealState ::
  "rlpCodec \<Rightarrow> 'b batchOps \<Rightarrow> bytes list \<Rightarrow> bytes \<Rightarrow> 'b healState \<Rightarrow>
   (string option \<times> 'b healState) outcome" where
  "onHealState rlp ops paths v s =
     (if length paths = 1 then
        (case decodeAccount rlp v of
           None \<Rightarrow> Returns (None, s)
         | Some account \<Rightarrow>
             bindO (SlimAccountRLP rlp account) (\<lambda>blob.
               Returns (None, flushStateWriter ops (healStorage ops paths v
                 (s\<lparr>stateWriter := WriteAccountSnapshot ops (stateWriter s)
                                      (BytesToHash (paths ! 0)) blob,
                    accountHealed := accountHealed s + 1,
                    accountHealedBytes :=
                      accountHealedBytes s + (1 + HashLength + int (length blob))\<rparr>)))))
      else Returns (None, flushStateWriter ops (healStorage ops paths v s)))"

section \<open>Account range responses\<close>

text \<open>
  The loop of \<^verbatim>\<open>processAccountResponse\<close> that keeps a response from running into
  the next task: it walks the hashes with their index, clears \<open>cont\<close> on a hash
  equal to \<open>lastB\<close> and goes on, and stops at the first hash above \<open>lastB\<close>, whose
  index is where both slices are cut.
\<close>

fun trimOverflow :: "int \<Rightarrow> hash list \<Rightarrow> nat \<Rightarrow> bool \<Rightarrow> nat option \<times> bool" where
  "trimOverflow lastB [] i cont = (None, cont)"
| "trimOverflow lastB (h # hs) i cont =
     (if Big h = lastB then trimOverflow lastB hs (Suc i) False
      else if Big h > lastB then (Some i, False)
      else trimOverflow lastB hs (Suc i) cont)"

text \<open>
  \<^verbatim>\<open>hashes[:i]\<close> is within bounds, \<open>i\<close> being an index of \<open>hashes\<close>.
  \<^verbatim>\<open>accounts[:i]\<close> panics when \<open>i\<close> is beyond the capacity of \<open>accounts\<close>; the model
  takes the capacity of a slice to be its length.
\<close>

definition trimResponse ::
  "hash \<Rightarrow> hash list \<Rightarrow> StateAccount list \<Rightarrow> bool \<Rightarrow>
   (hash list \<times> StateAccount list \<times> bool) outcome" where
  "trimResponse lastH hashes accounts cont =
     (case trimOverflow (Big lastH) hashes 0 cont of
        (None, c) \<Rightarrow> Returns (hashes, accounts, c)
      | (Some i, c) \<Rightarrow>
          if i \<le> length accounts then Returns (take i hashes, take i accounts, c)
          else Panics IndexOutOfRange)"

text \<open>
  The database lookups \<^verbatim>\<open>rawdb.HasCodeWithPrefix\<close> and \<^verbatim>\<open>rawdb.HasTrieNode\<close> (with
  the account hash as owner and the storage root as node hash) are parameters.
\<close>

record stateDB =
  HasCodeWithPrefix :: "hash \<Rightarrow> bool"
  HasTrieNode :: "hash \<Rightarrow> hash \<Rightarrow> bool"

definition setAt :: "nat \<Rightarrow> bool list \<Rightarrow> bool list outcome" where
  "setAt i xs = (if i < length xs then Returns (xs[i := True]) else Panics IndexOutOfRange)"

definition classifyCode :: "stateDB \<Rightarrow> nat \<Rightarrow> StateAccount \<Rightarrow> accountTask \<Rightarrow> accountTask outcome" where
  "classifyCode db i account task =
     (if CodeHash account \<noteq> HashBytes EmptyCodeHash
         \<and> \<not> HasCodeWithPrefix db (BytesToHash (CodeHash account))
      then bindO (gm_put (BytesToHash (CodeHash account)) () (a_codeTasks task)) (\<lambda>ct.
           bindO (setAt i (needCode task)) (\<lambda>nc.
             Returns (task\<lparr>a_codeTasks := ct, needCode := nc, pend := pend task + 1\<rparr>)))
      else Returns task)"

definition classifyState ::
  "stateDB \<Rightarrow> hash list \<Rightarrow> nat \<Rightarrow> StateAccount \<Rightarrow> (hash, unit) gomap \<times> accountTask \<Rightarrow>
   ((hash, unit) gomap \<times> accountTask) outcome" where
  "classifyState db hashes i account rt =
     (case rt of (resumed, task) \<Rightarrow>
       if Root account \<noteq> EmptyRootHash then
         (if i < length hashes then
            (if \<not> HasTrieNode db (hashes ! i) (Root account) then
               bindO
                 (case gm_get (SubTasks task) (hashes ! i) of
                    Some subtasks \<Rightarrow>
                      bindO (gm_put (hashes ! i)
                               (map (\<lambda>st. st\<lparr>st_root := Root account\<rparr>) subtasks)
                               (SubTasks task)) (\<lambda>sub.
                      bindO (setAt i (needHeal task)) (\<lambda>nh.
                      bindO (gm_put (hashes ! i) () resumed) (\<lambda>resumed'.
                        Returns (resumed', task\<lparr>SubTasks := sub, needHeal := nh\<rparr>))))
                  | None \<Rightarrow>
                      bindO (gm_put (hashes ! i) (Root account) (stateTasks task)) (\<lambda>stt.
                        Returns (resumed, task\<lparr>stateTasks := stt\<rparr>)))
                 (\<lambda>(resumed', task').
                    bindO (setAt i (needState task')) (\<lambda>ns.
                      Returns (resumed', task'\<lparr>needState := ns, pend := pend task' + 1\<rparr>)))
             else Returns (resumed, task))
          else Panics IndexOutOfRange)
       else Returns (resumed, task))"

fun classifyAccounts ::
  "stateDB \<Rightarrow> hash list \<Rightarrow> nat \<Rightarrow> StateAccount list \<Rightarrow> (hash, unit) gomap \<times> accountTask \<Rightarrow>
   ((hash, unit) gomap \<times> accountTask) outcome" where
  "classifyAccounts db hashes i [] rt = Returns rt"
| "classifyAccounts db hashes i (account # rest) rt =
     bindO (classifyCode db i account (snd rt)) (\<lambda>task1.
     bindO (classifyState db hashes i account (fst rt, task1)) (\<lambda>rt2.
       classifyAccounts db hashes (Suc i) rest rt2))"

text \<open>
  \<^verbatim>\<open>incHash\<close> is defined in another file of the package; it is the hash plus
  one, as the specification gives it and as go-ethereum has it.
\<close>

definition incHash :: "hash \<Rightarrow> hash" where
  "incHash h = h + 1"

text \<open>
  The node generator of an account task, \<^verbatim>\<open>genTrie\<close> with the batch \<^verbatim>\<open>genBatch\<close> it
  writes into, is a collaborator of type \<open>'g\<close>: \<^verbatim>\<open>genTrie.Update\<close> and
  \<^verbatim>\<open>genTrie.Commit\<close>, and \<^verbatim>\<open>ValueSize\<close>, \<^verbatim>\<open>Write\<close> and \<^verbatim>\<open>Reset\<close> of the batch.
\<close>

record 'g generatorOps =
  trieUpdate :: "'g \<Rightarrow> bytes \<Rightarrow> bytes \<Rightarrow> 'g"
  trieCommit :: "'g \<Rightarrow> 'g"
  genValueSize :: "'g \<Rightarrow> int"
  genWrite :: "'g \<Rightarrow> 'g"
  genReset :: "'g \<Rightarrow> 'g"

text \<open>
  What the handling of an account range response works on: the manager, the
  node generator of each account task (by the key the task is registered
  under), and the account snapshots written to the database. A task pointer is
  the key under which \<^verbatim>\<open>s.tasks.accountTasks\<close> holds the task object; a key the map
  does not hold stands for the nil pointer.
\<close>

record ('sch, 'g) syncState =
  mgr :: "'sch manager"
  generator :: "u64 \<Rightarrow> 'g"
  snapshotsWritten :: "(hash \<times> bytes) list"

definition taskAt :: "'sch manager \<Rightarrow> u64 \<Rightarrow> accountTask outcome" where
  "taskAt s k = (case gm_get (accountTasks (m_tasks s)) k of
                   None \<Rightarrow> Panics NilDeref | Some task \<Rightarrow> Returns task)"

definition setTaskAt :: "u64 \<Rightarrow> accountTask \<Rightarrow> 'sch manager \<Rightarrow> 'sch manager" where
  "setTaskAt k task s =
     s\<lparr>m_tasks := (m_tasks s)\<lparr>accountTasks :=
          map_option (AList.update k task) (accountTasks (m_tasks s))\<rparr>\<rparr>"

text \<open>
  The first loop of \<^verbatim>\<open>forwardAccountTask\<close>, over \<^verbatim>\<open>res.hashes\<close> with their index:
  it stops at the first account that still needs code or state, and writes the
  slim encoding of every account before that into the batch, whose \<^verbatim>\<open>OnPut\<close> hook
  adds the lengths of key and value to \<^verbatim>\<open>s.accountBytes\<close> (the key of an account
  snapshot is one prefix byte and the hash). \<^verbatim>\<open>task.needCode[i]\<close>,
  \<^verbatim>\<open>task.needState[i]\<close>, \<^verbatim>\<open>res.accounts[i]\<close> and \<^verbatim>\<open>task.needHeal[i]\<close> are indexed by
  the position in \<^verbatim>\<open>res.hashes\<close>. The state of the loop is the generator, the
  batch and the byte counter.
\<close>

fun persistAccounts ::
  "rlpCodec \<Rightarrow> 'g generatorOps \<Rightarrow> accountTask \<Rightarrow> StateAccount list \<Rightarrow> nat \<Rightarrow> hash list \<Rightarrow>
   'g \<times> (hash \<times> bytes) list \<times> int \<Rightarrow> ('g \<times> (hash \<times> bytes) list \<times> int) outcome" where
  "persistAccounts rlp gops task accounts i [] st = Returns st"
| "persistAccounts rlp gops task accounts i (h # rest) st =
     (if i \<ge> length (needCode task) then Panics IndexOutOfRange
      else if needCode task ! i then Returns st
      else if i \<ge> length (needState task) then Panics IndexOutOfRange
      else if needState task ! i then Returns st
      else if i \<ge> length accounts then Panics IndexOutOfRange
      else
        bindO (SlimAccountRLP rlp (accounts ! i)) (\<lambda>slim.
          case st of (gen, batch, written) \<Rightarrow>
            if i \<ge> length (needHeal task) then Panics IndexOutOfRange
            else if needHeal task ! i
            then persistAccounts rlp gops task accounts (Suc i) rest
                   (gen, batch @ [(h, slim)], written + (1 + HashLength + int (length slim)))
            else
              (case FullAccountRLP rlp slim of
                 None \<Rightarrow> Panics ExplicitPanic
               | Some full \<Rightarrow>
                   persistAccounts rlp gops task accounts (Suc i) rest
                     (trieUpdate gops gen (HashBytes h) full, batch @ [(h, slim)],
                      written + (1 + HashLength + int (length slim))))))"

text \<open>
  The second loop: the marker \<^verbatim>\<open>task.Next\<close> moves past every hash of
  \<^verbatim>\<open>res.hashes\<close> up to the first account that still needs code or state, where
  the function returns; the flag tells whether the loop came to its end.
\<close>

fun forwardMarker :: "nat \<Rightarrow> hash list \<Rightarrow> accountTask \<Rightarrow> (bool \<times> accountTask) outcome" where
  "forwardMarker i [] task = Returns (True, task)"
| "forwardMarker i (h # rest) task =
     (if i \<ge> length (needCode task) then Panics IndexOutOfRange
      else if needCode task ! i then Returns (False, task)
      else if i \<ge> length (needState task) then Panics IndexOutOfRange
      else if needState task ! i then Returns (False, task)
      else forwardMarker (Suc i) rest (task\<lparr>Next := incHash h\<rparr>))"

text \<open>
  \<^verbatim>\<open>forwardAccountTask\<close> of the task under key \<open>k\<close>. The batch is written even when
  that fails, which is only logged; the model takes it as written.
\<close>

definition forwardAccountTask ::
  "rlpCodec \<Rightarrow> 'g generatorOps \<Rightarrow> u64 \<Rightarrow> ('sch, 'g) syncState \<Rightarrow> ('sch, 'g) syncState outcome" where
  "forwardAccountTask rlp gops k st =
     bindO (taskAt (mgr st) k) (\<lambda>task.
       case res task of
         None \<Rightarrow> Returns st
       | Some r \<Rightarrow>
           bindO (persistAccounts rlp gops (task\<lparr>res := None\<rparr>) (r_accounts r) 0 (r_hashes r)
                    (generator st k, [], accountBytes (mgr st))) (\<lambda>(gen, batch, written).
           bindO (forwardMarker 0 (r_hashes r) (task\<lparr>res := None\<rparr>)) (\<lambda>(complete, task1).
             let s1 = (mgr st)\<lparr>accountBytes := written,
                               accountSynced := accountSynced (mgr st)
                                                + word_of_nat (length (r_accounts r))\<rparr>;
                 task2 = (if complete then task1\<lparr>task_done := \<not> r_cont r\<rparr> else task1);
                 gen1 = (if complete \<and> task_done task2 then trieCommit gops gen else gen);
                 gen2 = (if complete \<and> (genValueSize gops gen1 > IdealBatchSize \<or> task_done task2)
                         then genReset gops (genWrite gops gen1) else gen1)
             in Returns (st\<lparr>mgr := setTaskAt k task2 s1,
                            generator := (generator st)(k := gen2),
                            snapshotsWritten := snapshotsWritten st @ batch\<rparr>))))"

text \<open>
  \<^verbatim>\<open>processAccountResponse\<close> of the task under key \<open>k\<close>. The response is stored, as
  it was handed in, in \<^verbatim>\<open>res\<close> of the task that \<^verbatim>\<open>s.tasks.accountTasks\<close> holds under
  \<^verbatim>\<open>task.id\<close>, if there is one; that is the task itself when it is registered
  under its id. The loop then cuts the local slices \<open>hashes\<close> and \<open>accounts\<close> and
  clears the local \<open>cont\<close>, the flags and maps of the task are made anew for the
  cut accounts, these are classified, the sub-tasks not resumed are deleted,
  and with nothing pending the task is forwarded. The function returns nil in
  every case; the result is the state it leaves.
\<close>

definition processAccountResponse ::
  "stateDB \<Rightarrow> rlpCodec \<Rightarrow> 'g generatorOps \<Rightarrow> u64 \<Rightarrow> hash list \<Rightarrow> StateAccount list \<Rightarrow> bool \<Rightarrow>
   ('sch, 'g) syncState \<Rightarrow> ('sch, 'g) syncState outcome" where
  "processAccountResponse db rlp gops k hashes accounts cont st =
     bindO (taskAt (mgr st) k) (\<lambda>task.
       let s1 = (case gm_get (accountTasks (m_tasks (mgr st))) (task_id task) of
                   None \<Rightarrow> mgr st
                 | Some registered \<Rightarrow>
                     setTaskAt (task_id task)
                       (registered\<lparr>res := Some \<lparr>r_hashes = hashes, r_accounts = accounts,
                                                r_cont = cont\<rparr>\<rparr>) (mgr st))
       in
       bindO (taskAt s1 k) (\<lambda>task0.
       bindO (trimResponse (Last task0) hashes accounts cont) (\<lambda>(hashes', accounts', cont').
         let n = length accounts';
             task1 = task0\<lparr>needCode := replicate n False, needState := replicate n False,
                          needHeal := replicate n False, a_codeTasks := gm_make,
                          stateTasks := gm_make, pend := 0\<rparr>
         in
         bindO (classifyAccounts db hashes' 0 accounts' (gm_make, task1)) (\<lambda>(resumed, task2).
           let task3 = task2\<lparr>SubTasks :=
                         map_option (filter (\<lambda>(h, _). gm_has resumed h)) (SubTasks task2)\<rparr>;
               st3 = st\<lparr>mgr := setTaskAt k task3 s1\<rparr>
           in if pend task3 = 0 then forwardAccountTask rlp gops k st3 else Returns st3))))"

section \<open>Block verification and insertion\<close>

record Header =
  hdr_payload :: bytes
  LastCommitSignature :: bytes
  LastCommitBitmap :: bytes

record Block =
  Header :: Header
  CurrentCommitSig :: bytes

text \<open>
  The consensus engine, the chain and \<^verbatim>\<open>chain.ParseCommitSigAndBitmap\<close> are
  collaborators. An error of theirs is its message; \<^verbatim>\<open>InsertChain\<close> returns the
  chain as it leaves it.
\<close>

record 'bc chainOps =
  VerifyHeaderSignature :: "'bc \<Rightarrow> Header \<Rightarrow> bytes \<Rightarrow> bytes \<Rightarrow> string option"
  VerifyHeader :: "'bc \<Rightarrow> Header \<Rightarrow> bool \<Rightarrow> string option"
  InsertChain :: "'bc \<Rightarrow> Block list \<Rightarrow> bool \<Rightarrow> 'bc \<times> string option"
  ParseCommitSigAndBitmap :: "bytes \<Rightarrow> string + (bytes \<times> bytes)"

text \<open>
  The errors \<^verbatim>\<open>verifyAndInsertBlock\<close> returns: the type \<^verbatim>\<open>sigVerifyErr\<close>, and the
  three errors wrapped with a message by \<^verbatim>\<open>errors.Wrap\<close>.
\<close>

datatype blockError =
  sigVerifyErr string
  | WrapParseCommitSig string
  | WrapVerifyHeader string
  | WrapInsertChain string

definition verifyAndInsertBlock ::
  "'bc chainOps \<Rightarrow> 'bc \<Rightarrow> Block \<Rightarrow> Block list \<Rightarrow> 'bc \<times> blockError option" where
  "verifyAndInsertBlock ops bc block nextBlocks =
     (case (if length nextBlocks > 0
            then Inr (LastCommitSignature (Header (nextBlocks ! 0)),
                      LastCommitBitmap (Header (nextBlocks ! 0)))
            else ParseCommitSigAndBitmap ops (CurrentCommitSig block)) of
        Inl err \<Rightarrow> (bc, Some (WrapParseCommitSig err))
      | Inr (sigBytes, bitmap) \<Rightarrow>
          (case VerifyHeaderSignature ops bc (Header block) sigBytes bitmap of
             Some err \<Rightarrow> (bc, Some (sigVerifyErr err))
           | None \<Rightarrow>
               (case VerifyHeader ops bc (Header block) True of
                  Some err \<Rightarrow> (bc, Some (WrapVerifyHeader err))
                | None \<Rightarrow>
                    (case InsertChain ops bc [block] False of
                       (bc', Some err) \<Rightarrow> (bc', Some (WrapInsertChain err))
                     | (bc', None) \<Rightarrow> (bc', None)))))"

function verifyAndInsertFrom ::
  "'bc chainOps \<Rightarrow> Block list \<Rightarrow> nat \<Rightarrow> 'bc \<Rightarrow> int \<times> blockError option \<times> 'bc" where
  "verifyAndInsertFrom ops blocks i bc =
     (if i < length blocks then
        (case verifyAndInsertBlock ops bc (blocks ! i) (drop (i + 1) blocks) of
           (bc', Some err) \<Rightarrow> (int i, Some err, bc')
         | (bc', None) \<Rightarrow> verifyAndInsertFrom ops blocks (i + 1) bc')
      else (int (length blocks), None, bc))"
  by pat_completeness auto
termination
  by (relation "measure (\<lambda>(ops, blocks, i, bc). length blocks - i)") auto

definition verifyAndInsertBlocks ::
  "'bc chainOps \<Rightarrow> 'bc \<Rightarrow> Block list \<Rightarrow> int \<times> blockError option \<times> 'bc" where
  "verifyAndInsertBlocks ops bc blocks = verifyAndInsertFrom ops blocks 0 bc"

section \<open>Heal request ordering\<close>

record healRequestSort =
  s_paths :: "bytes list"
  s_hashes :: "hash list"
  s_syncPaths :: "bytes list list"

text \<open>\<^verbatim>\<open>bytes.Compare\<close>: the lexicographic comparison of two byte strings, as -1, 0 or 1.\<close>

fun bytes_Compare :: "bytes \<Rightarrow> bytes \<Rightarrow> int" where
  "bytes_Compare [] [] = 0"
| "bytes_Compare [] (y # ys) = - 1"
| "bytes_Compare (x # xs) [] = 1"
| "bytes_Compare (x # xs) (y # ys) =
     (if x < y then - 1 else if y < x then 1 else bytes_Compare xs ys)"

definition Len :: "healRequestSort \<Rightarrow> nat" where
  "Len t = length (s_hashes t)"

text \<open>
  \<^verbatim>\<open>Less\<close> reads the first segment of both paths, and the second of both when
  each has two; \<open>pathLess\<close> is its body on the two paths.
\<close>

definition pathLess :: "bytes list \<Rightarrow> bytes list \<Rightarrow> bool" where
  "pathLess a b =
     (let c = bytes_Compare (a ! 0) (b ! 0) in
      if c = - 1 then True
      else if c = 1 then False
      else if length a < length b then True
      else if length b < length a then False
      else if length a = 2 then bytes_Compare (a ! 1) (b ! 1) < 0
      else False)"

definition Less :: "healRequestSort \<Rightarrow> nat \<Rightarrow> nat \<Rightarrow> bool" where
  "Less t i j = pathLess (s_syncPaths t ! i) (s_syncPaths t ! j)"

definition Swap :: "healRequestSort \<Rightarrow> nat \<Rightarrow> nat \<Rightarrow> healRequestSort" where
  "Swap t i j =
     \<lparr> s_paths = (s_paths t)[i := s_paths t ! j, j := s_paths t ! i],
       s_hashes = (s_hashes t)[i := s_hashes t ! j, j := s_hashes t ! i],
       s_syncPaths = (s_syncPaths t)[i := s_syncPaths t ! j, j := s_syncPaths t ! i] \<rparr>"

text \<open>
  \<^verbatim>\<open>Merge\<close>, with the index expressions that can be out of range written out:
  \<^verbatim>\<open>pathset[0]\<close> and \<^verbatim>\<open>result[end][0]\<close> are read only when \<open>result\<close> is not empty,
  \<^verbatim>\<open>pathset[1]\<close> only when the first segments are equal.
\<close>

fun mergeLoop :: "bytes list list \<Rightarrow> TrieNodePathSet list \<Rightarrow> TrieNodePathSet list outcome" where
  "mergeLoop [] result = Returns result"
| "mergeLoop (path # rest) result =
     (if length path = 1 then mergeLoop rest (result @ [path])
      else if length result = 0 then mergeLoop rest (result @ [path])
      else if length path = 0 \<or> length (last result) = 0 then Panics IndexOutOfRange
      else if path ! 0 \<noteq> last result ! 0 then mergeLoop rest (result @ [path])
      else if length path < 2 then Panics IndexOutOfRange
      else mergeLoop rest (butlast result @ [last result @ [path ! 1]]))"

definition Merge :: "healRequestSort \<Rightarrow> TrieNodePathSet list outcome" where
  "Merge t = mergeLoop (s_syncPaths t) []"

text \<open>
  The collaborators of batch assembly: the constant \<^verbatim>\<open>StatesPerRequest\<close>, the
  trie-sync scheduler (\<^verbatim>\<open>Pending\<close>, and \<^verbatim>\<open>Missing\<close> returning paths, hashes and
  codes), the float computation \<^verbatim>\<open>int(float64(cap) / s.trienodeHealThrottle)\<close>,
  \<^verbatim>\<open>SyncCompleted\<close>, \<^verbatim>\<open>trie.NewSyncPath\<close>, and \<^verbatim>\<open>sort.Sort\<close>. The last is given by
  the order it leaves the rows in: from the comparison of the rows at two
  positions of the unsorted slices and their number, the list of the positions
  in sorted order.
\<close>

record ('sch, 'm) collaborators =
  StatesPerRequest :: int
  Pending :: "'sch \<Rightarrow> nat"
  Missing :: "'sch \<Rightarrow> int \<Rightarrow> (bytes list \<times> hash list \<times> hash list) \<times> 'sch"
  healThrottled :: "int \<Rightarrow> int"
  SyncCompleted :: "'m \<Rightarrow> 'm outcome"
  NewSyncPath :: "bytes \<Rightarrow> bytes list"
  sortOrder :: "(nat \<Rightarrow> nat \<Rightarrow> bool) \<Rightarrow> nat \<Rightarrow> nat list"

text \<open>
  \<^verbatim>\<open>sortByAccountPath\<close>. \<^verbatim>\<open>Len\<close> is the number of hashes. Sorting fewer than two
  rows touches nothing. Sorting two or more compares every row with some other
  one, and \<^verbatim>\<open>Less\<close> indexes \<^verbatim>\<open>syncPaths\<close> and the first segment of the path: with
  fewer paths than hashes, or a path without segments among the rows, the sort
  panics. Otherwise the first \<open>Len\<close> entries of the three slices are permuted
  alike, as \<^verbatim>\<open>Swap\<close> does.
\<close>

definition sortRows ::
  "((nat \<Rightarrow> nat \<Rightarrow> bool) \<Rightarrow> nat \<Rightarrow> nat list) \<Rightarrow> healRequestSort \<Rightarrow> healRequestSort outcome" where
  "sortRows srt t =
     (let n = Len t in
      if n < 2 then Returns t
      else if length (s_syncPaths t) < n \<or> (\<exists>p \<in> set (take n (s_syncPaths t)). length p = 0)
        then Panics IndexOutOfRange
      else let p = srt (Less t) n in
        Returns \<lparr> s_paths = map ((!) (s_paths t)) p @ drop n (s_paths t),
                  s_hashes = map ((!) (s_hashes t)) p,
                  s_syncPaths = map ((!) (s_syncPaths t)) p @ drop n (s_syncPaths t) \<rparr>)"

definition sortByAccountPath ::
  "('sch, 'm) collaborators \<Rightarrow> bytes list \<Rightarrow> hash list \<Rightarrow>
   (bytes list \<times> hash list \<times> bytes list list \<times> TrieNodePathSet list) outcome" where
  "sortByAccountPath env paths hashes =
     bindO (sortRows (sortOrder env)
              \<lparr> s_paths = paths, s_hashes = hashes, s_syncPaths = map (NewSyncPath env) paths \<rparr>) (\<lambda>n.
     bindO (Merge n) (\<lambda>pathsets.
       Returns (s_paths n, s_hashes n, s_syncPaths n, pathsets)))"

text \<open>
  Reference collaborators. \<^verbatim>\<open>trie.NewSyncPath\<close> of go-ethereum: a path of fewer
  than 64 nibbles is one segment, its compact encoding; a longer one is the 32
  key bytes of its first 64 nibbles and the compact encoding of the rest (heal
  paths carry no terminator nibble). The sort is an insertion sort on positions,
  which is what \<^verbatim>\<open>sort.Sort\<close> runs on short slices.
\<close>

fun decodeNibbles :: "bytes \<Rightarrow> bytes" where
  "decodeNibbles (hi # lo # rest) = (push_bit 4 hi OR lo) # decodeNibbles rest"
| "decodeNibbles _ = []"

definition hexToCompact :: "bytes \<Rightarrow> bytes" where
  "hexToCompact hex =
     (if odd (length hex) then (0x10 OR hd hex) # decodeNibbles (tl hex)
      else 0 # decodeNibbles hex)"

definition gethNewSyncPath :: "bytes \<Rightarrow> bytes list" where
  "gethNewSyncPath path =
     (if length path < 64 then [hexToCompact path]
      else [decodeNibbles (take 64 path), hexToCompact (drop 64 path)])"

fun insertPos :: "(nat \<Rightarrow> nat \<Rightarrow> bool) \<Rightarrow> nat \<Rightarrow> nat list \<Rightarrow> nat list" where
  "insertPos lt i [] = [i]"
| "insertPos lt i (j # js) = (if lt i j then i # j # js else j # insertPos lt i js)"

definition insertionOrder :: "(nat \<Rightarrow> nat \<Rightarrow> bool) \<Rightarrow> nat \<Rightarrow> nat list" where
  "insertionOrder lt n = foldl (\<lambda>acc i. insertPos lt i acc) [] [0..<n]"

section \<open>Task ids\<close>

text \<open>
  The loop that draws a task id: \<^verbatim>\<open>rand.Int63()\<close> until the draw is neither zero
  nor a key of the map. The random source is the list of its draws; the loop
  does not end when the list has no fresh draw.
\<close>

fun genTaskID :: "(u64, 'v) gomap \<Rightarrow> u64 list \<Rightarrow> (u64 \<times> u64 list) outcome" where
  "genTaskID m [] = Diverges"
| "genTaskID m (d # draws) =
     (if d = 0 then genTaskID m draws
      else if gm_has m d then genTaskID m draws
      else Returns (d, draws))"


section \<open>Sync status\<close>

text \<open>
  \<^verbatim>\<open>SyncProgress\<close> as \<^verbatim>\<open>encoding/json\<close> stores and reads it: of an account task
  and of a storage task the exported fields only (\<^verbatim>\<open>Next\<close>, \<^verbatim>\<open>Last\<close>,
  \<^verbatim>\<open>SubTasks\<close>). A task read back has the zero value in every other field, its
  \<^verbatim>\<open>id\<close> among them.
\<close>

record savedStorageTask =
  sv_st_Next :: hash
  sv_st_Last :: hash

record savedAccountTask =
  sv_Next :: hash
  sv_Last :: hash
  sv_SubTasks :: "(hash, savedStorageTask list) gomap"

record SyncProgress =
  Tasks :: "(u64, savedAccountTask) gomap"
  AccountSynced :: u64
  AccountBytes :: int
  BytecodeSynced :: u64
  BytecodeBytes :: int
  StorageSynced :: u64
  StorageBytes :: int
  TrienodeHealSynced :: u64
  TrienodeHealBytes :: int
  BytecodeHealSynced :: u64
  BytecodeHealBytes :: int

definition restoreStorageTask :: "savedStorageTask \<Rightarrow> storageTask" where
  "restoreStorageTask x =
     \<lparr> st_Next = sv_st_Next x, st_Last = sv_st_Last x, st_root = 0,
       st_requested = False, st_done = False \<rparr>"

definition restoreAccountTask :: "savedAccountTask \<Rightarrow> accountTask" where
  "restoreAccountTask x =
     \<lparr> task_id = 0, Next = sv_Next x, Last = sv_Last x,
       SubTasks = map_option (map (\<lambda>(h, sts). (h, map restoreStorageTask sts))) (sv_SubTasks x),
       pend = 0, needCode = [], needState = [], needHeal = [], a_codeTasks = None,
       stateTasks = None, requested = False, task_done = False, res = None \<rparr>"

definition accountConcurrency :: nat where
  "accountConcurrency = 16"

definition storageConcurrency :: nat where
  "storageConcurrency = 16"

definition chunkStep :: int where
  "chunkStep = 2 ^ 256 div int accountConcurrency - 1"

definition newAccountTask :: "u64 \<Rightarrow> hash \<Rightarrow> hash \<Rightarrow> accountTask" where
  "newAccountTask taskID nextH lastH =
     \<lparr> task_id = taskID, Next = nextH, Last = lastH, SubTasks = gm_make,
       pend = 0, needCode = [], needState = [], needHeal = [], a_codeTasks = None,
       stateTasks = None, requested = False, task_done = False, res = None \<rparr>"

text \<open>
  The chunking loop of a fresh sync, by the number \<open>k\<close> of rounds still to run:
  round \<open>i\<close> is the last one, \<open>i = accountConcurrency - 1\<close>, when \<open>k = 1\<close>.
\<close>

primrec chunkLoop :: "nat \<Rightarrow> hash \<Rightarrow> u64 list \<Rightarrow> tasks \<Rightarrow> (tasks \<times> u64 list) outcome" where
  "chunkLoop 0 nextH draws t = Returns (t, draws)"
| "chunkLoop (Suc k) nextH draws t =
     (let lastH = (if k = 0 then MaxHash else BigToHash (Big nextH + chunkStep)) in
      bindO (genTaskID (accountTasks t) draws) (\<lambda>(taskID, draws').
      bindO (addAccountTask taskID (newAccountTask taskID nextH lastH) t) (\<lambda>t'.
        chunkLoop k (BigToHash (Big lastH + 1)) draws' t')))"

text \<open>
  \<^verbatim>\<open>loadSyncStatus\<close>. \<open>status\<close> is what \<^verbatim>\<open>rawdb.ReadSnapshotSyncStatus\<close> finds,
  \<open>unmarshal\<close> is \<^verbatim>\<open>json.Unmarshal\<close> (\<open>None\<close>: an error, which is logged). With a
  decoded status the tasks and counters are taken over. Otherwise the account
  task map is set to nil, the counters to zero, and the chunking loop runs.
\<close>

definition loadSyncStatus ::
  "(bytes \<Rightarrow> SyncProgress option) \<Rightarrow> bytes option \<Rightarrow> u64 list \<Rightarrow> 'sch manager \<Rightarrow>
   ('sch manager \<times> u64 list) outcome" where
  "loadSyncStatus unmarshal status draws s =
     (case (case status of None \<Rightarrow> None | Some raw \<Rightarrow> unmarshal raw) of
        Some progress \<Rightarrow>
          (let loaded = map_option (map (\<lambda>(k, x). (k, restoreAccountTask x))) (Tasks progress) in
           Returns
             (s\<lparr>m_tasks := (m_tasks s)\<lparr>accountTasks := loaded\<rparr>,
                snapped := (gm_len loaded = 0),
                accountSynced := AccountSynced progress, accountBytes := AccountBytes progress,
                bytecodeSynced := BytecodeSynced progress, bytecodeBytes := BytecodeBytes progress,
                storageSynced := StorageSynced progress, storageBytes := StorageBytes progress,
                trienodeHealSynced := TrienodeHealSynced progress,
                trienodeHealBytes := TrienodeHealBytes progress,
                bytecodeHealSynced := BytecodeHealSynced progress,
                bytecodeHealBytes := BytecodeHealBytes progress\<rparr>,
              draws))
      | None \<Rightarrow>
          bindO (chunkLoop accountConcurrency 0 draws ((m_tasks s)\<lparr>accountTasks := None\<rparr>))
            (\<lambda>(t, draws').
               Returns
                 (s\<lparr>m_tasks := t,
                    accountSynced := 0, accountBytes := 0, bytecodeSynced := 0,
                    bytecodeBytes := 0, storageSynced := 0, storageBytes := 0,
                    trienodeHealSynced := 0, trienodeHealBytes := 0,
                    bytecodeHealSynced := 0, bytecodeHealBytes := 0\<rparr>,
                  draws')))"

section \<open>Batch assembly\<close>

text \<open>
  The five output slots of a batch: \<open>accounts\<close>, \<open>codes\<close>, \<open>storages\<close>,
  \<open>healtask\<close>, \<open>codetask\<close>; the last three are pointers.
\<close>

type_synonym batch =
  "accountTask list \<times> hash list \<times> storageTaskBundle option \<times> healTask option \<times> healTask option"

subsection \<open>From retries\<close>

text \<open>
  A \<^verbatim>\<open>range\<close> loop runs over the entries the map had when the loop began and
  passes over an entry deleted before it is reached. The flag of a result tells
  whether the function returned from inside the loop.
\<close>

fun retryAccounts ::
  "int \<Rightarrow> (u64 \<times> accountTask) list \<Rightarrow> accountTask list \<Rightarrow> 'sch manager \<Rightarrow>
   (bool \<times> accountTask list \<times> 'sch manager) outcome" where
  "retryAccounts n [] accounts s = Returns (False, accounts, s)"
| "retryAccounts n ((k, task) # todo) accounts s =
     (if \<not> gm_has (accountTasks (retries s)) k then retryAccounts n todo accounts s
      else if int (length accounts) = n then Returns (True, accounts, s)
      else bindO (addAccountTask (task_id task) task (requesting s)) (\<lambda>rq.
             retryAccounts n todo (accounts @ [task])
               (s\<lparr>requesting := rq, retries := deleteAccountTask (task_id task) (retries s)\<rparr>)))"

fun retryCodes ::
  "int \<Rightarrow> hash list \<Rightarrow> hash list \<Rightarrow> 'sch manager \<Rightarrow>
   (bool \<times> hash list \<times> 'sch manager) outcome" where
  "retryCodes cap [] codes s = Returns (False, codes, s)"
| "retryCodes cap (code # todo) codes s =
     (if int (length codes) \<ge> cap then Returns (True, codes, s)
      else bindO (addCodeTask code (requesting s)) (\<lambda>rq.
             retryCodes cap todo (codes @ [code])
               (s\<lparr>requesting := rq, retries := deleteCodeTask code (retries s)\<rparr>)))"

text \<open>
  The storage bundle is read from \<^verbatim>\<open>s.retries.storageTasks[0]\<close>: a nil pointer
  unless the map has the key 0.
\<close>

definition retryStorages :: "'sch manager \<Rightarrow> (storageTaskBundle option \<times> 'sch manager) outcome" where
  "retryStorages s =
     (if gm_len (storageTasks (retries s)) > 0 then
        (case gm_get (storageTasks (retries s)) 0 of
           None \<Rightarrow> Panics NilDeref
         | Some b \<Rightarrow>
             bindO (addStorageTaskBundle (b_id b) b (requesting s)) (\<lambda>rq.
               Returns (Some b, s\<lparr>requesting := rq,
                                  retries := deleteStorageTaskBundle (b_id b) (retries s)\<rparr>)))
      else Returns (None, s))"

definition retryCopy :: "u64 \<Rightarrow> healTask \<Rightarrow> healTask" where
  "retryCopy hid task =
     \<lparr> h_id = hid, trieTasks = None, h_codeTasks = None, h_paths = h_paths task,
       h_hashes = h_hashes task, h_pathsets = h_pathsets task, h_task = h_task task,
       h_root = h_root task, byteCodeReq = byteCodeReq task \<rparr>"

fun retryHealers ::
  "(u64 \<times> healTask option) list \<Rightarrow> bool \<Rightarrow> bool \<Rightarrow> healTask option \<Rightarrow> healTask option \<Rightarrow>
   'sch manager \<Rightarrow> (healTask option \<times> healTask option \<times> 'sch manager) outcome" where
  "retryHealers [] foundHealTask foundByteCodeTask healtask codetask s =
     Returns (healtask, codetask, s)"
| "retryHealers ((hid, None) # todo) foundHealTask foundByteCodeTask healtask codetask s =
     Panics NilDeref"
| "retryHealers ((hid, Some task) # todo) foundHealTask foundByteCodeTask healtask codetask s =
     (if (\<not> foundHealTask \<and> \<not> byteCodeReq task) \<or> (\<not> foundByteCodeTask \<and> byteCodeReq task)
      then
        bindO (addHealerTask hid (Some task) (requesting s)) (\<lambda>rq.
          let s' = s\<lparr>requesting := rq, retries := deleteHealerTask hid (retries s)\<rparr>;
              foundHealTask' = (foundHealTask \<or> \<not> byteCodeReq task);
              foundByteCodeTask' = (foundByteCodeTask \<or> byteCodeReq task);
              healtask' = (if byteCodeReq task then healtask else Some (retryCopy hid task));
              codetask' = (if byteCodeReq task then Some (retryCopy hid task) else codetask)
          in if foundHealTask' \<and> foundByteCodeTask' then Returns (healtask', codetask', s')
             else retryHealers todo foundHealTask' foundByteCodeTask' healtask' codetask' s')
      else retryHealers todo foundHealTask foundByteCodeTask healtask codetask s)"

definition getBatchFromRetries :: "int \<Rightarrow> 'sch manager \<Rightarrow> (batch \<times> 'sch manager) outcome" where
  "getBatchFromRetries n s =
     (if n < 0 then Panics MakeSliceCap
      else
      bindO (retryAccounts n (gm_items (accountTasks (retries s))) [] s) (\<lambda>(ret1, accounts, s1).
        if ret1 then Returns ((accounts, [], None, None, None), s1)
        else
      bindO (retryCodes (n - int (length accounts))
               (map fst (gm_items (codeTasks (retries s1)))) [] s1) (\<lambda>(ret2, codes, s2).
        if ret2 then Returns ((accounts, codes, None, None, None), s2)
        else
      bindO (retryStorages s2) (\<lambda>(storages, s3).
        case storages of
          None \<Rightarrow> Panics NilDeref
        | Some st \<Rightarrow>
            if length accounts + length codes + length (b_accounts st) > 0
            then Returns ((accounts, codes, storages, None, None), s3)
            else if gm_len (healer (retries s3)) > 0
            then bindO (retryHealers (gm_items (healer (retries s3))) False False None None s3)
                   (\<lambda>(healtask, codetask, s4).
                      Returns ((accounts, codes, storages, healtask, codetask), s4))
            else Returns ((accounts, codes, storages, None, None), s3)))))"


subsection \<open>From unprocessed tasks\<close>

text \<open>
  The loop over \<^verbatim>\<open>s.tasks.accountTasks\<close> that hands out account tasks. Marking the
  task \<^verbatim>\<open>requested\<close> is a write through the pointer the map holds.
\<close>

fun unprocAccounts ::
  "int \<Rightarrow> (u64 \<times> accountTask) list \<Rightarrow> accountTask list \<Rightarrow> 'sch manager \<Rightarrow>
   (bool \<times> accountTask list \<times> 'sch manager) outcome" where
  "unprocAccounts n [] accounts s = Returns (False, accounts, s)"
| "unprocAccounts n ((i, task) # todo) accounts s =
     (if int (length accounts) = n then Returns (True, accounts, s)
      else if requested task then unprocAccounts n todo accounts s
      else if task_id task = 0 then unprocAccounts n todo accounts s
      else
        bindO (gm_put i (task\<lparr>requested := True\<rparr>) (accountTasks (m_tasks s))) (\<lambda>tm.
        bindO (addAccountTask (task_id task) (task\<lparr>requested := True\<rparr>) (requesting s)) (\<lambda>rq.
          unprocAccounts n todo (accounts @ [task\<lparr>requested := True\<rparr>])
            (s\<lparr>m_tasks := (m_tasks s)\<lparr>accountTasks := tm\<rparr>, requesting := rq\<rparr>))))"

fun drainCodes ::
  "int \<Rightarrow> hash list \<Rightarrow> (hash, unit) gomap \<Rightarrow> hash list \<Rightarrow> 'sch manager \<Rightarrow>
   (bool \<times> (hash, unit) gomap \<times> hash list \<times> 'sch manager) outcome" where
  "drainCodes cap [] ct codes s = Returns (False, ct, codes, s)"
| "drainCodes cap (h # todo) ct codes s =
     bindO (addCodeTask h (requesting s)) (\<lambda>rq.
       if int (length (codes @ [h])) \<ge> cap
       then Returns (True, gm_delete h ct, codes @ [h],
                     s\<lparr>requesting := rq, m_tasks := deleteCodeTask h (m_tasks s)\<rparr>)
       else drainCodes cap todo (gm_delete h ct) (codes @ [h])
              (s\<lparr>requesting := rq, m_tasks := deleteCodeTask h (m_tasks s)\<rparr>))"

fun unprocCodes ::
  "int \<Rightarrow> (u64 \<times> accountTask) list \<Rightarrow> hash list \<Rightarrow> 'sch manager \<Rightarrow>
   (bool \<times> hash list \<times> 'sch manager) outcome" where
  "unprocCodes cap [] codes s = Returns (False, codes, s)"
| "unprocCodes cap ((k, task) # todo) codes s =
     (if gm_len (a_codeTasks task) = 0 then unprocCodes cap todo codes s
      else
        bindO (drainCodes cap (map fst (gm_items (a_codeTasks task))) (a_codeTasks task) codes s)
          (\<lambda>(ret, ct, codes', s').
        bindO (gm_put k (task\<lparr>a_codeTasks := ct\<rparr>) (accountTasks (m_tasks s'))) (\<lambda>tm.
          if ret
          then Returns (True, codes', s'\<lparr>m_tasks := (m_tasks s')\<lparr>accountTasks := tm\<rparr>\<rparr>)
          else unprocCodes cap todo codes' (s'\<lparr>m_tasks := (m_tasks s')\<lparr>accountTasks := tm\<rparr>\<rparr>))))"

text \<open>
  The storage bundle of one account task: the first sub-task not yet requested
  of the first account that has one, or else the small state tasks, drained up
  to \<open>storageSets\<close> accounts.
\<close>

fun firstUnrequested :: "storageTask list \<Rightarrow> nat \<Rightarrow> (nat \<times> storageTask) option" where
  "firstUnrequested [] i = None"
| "firstUnrequested (st # rest) i =
     (if st_requested st then firstUnrequested rest (Suc i) else Some (i, st))"

fun pickSubTask :: "(hash \<times> storageTask list) list \<Rightarrow> (hash \<times> nat \<times> storageTask) option" where
  "pickSubTask [] = None"
| "pickSubTask ((account, subtasks) # rest) =
     (case firstUnrequested subtasks 0 of
        Some (i, st) \<Rightarrow> Some (account, i, st)
      | None \<Rightarrow> pickSubTask rest)"

fun drainStateTasks ::
  "int \<Rightarrow> (hash \<times> hash) list \<Rightarrow> (hash, hash) gomap \<Rightarrow> hash list \<Rightarrow> hash list \<Rightarrow>
   (hash, hash) gomap \<times> hash list \<times> hash list" where
  "drainStateTasks storageSets [] stt accs roots = (stt, accs, roots)"
| "drainStateTasks storageSets ((account, r) # todo) stt accs roots =
     (if int (length (accs @ [account])) \<ge> storageSets
      then (gm_delete account stt, accs @ [account], roots @ [r])
      else drainStateTasks storageSets todo (gm_delete account stt) (accs @ [account]) (roots @ [r]))"

definition clampRequestSize :: "int \<Rightarrow> int" where
  "clampRequestSize cap =
     (let cap1 = (if cap > maxRequestSize then maxRequestSize else cap)
      in if cap1 < minRequestSize then minRequestSize else cap1)"

definition fillBundle ::
  "u64 \<Rightarrow> u64 \<Rightarrow> int \<Rightarrow> accountTask \<Rightarrow> storageTaskBundle \<times> accountTask" where
  "fillBundle taskID accTaskID storageSets task =
     (case pickSubTask (gm_items (SubTasks task)) of
        Some (account, i, st) \<Rightarrow>
          (\<lparr> b_id = taskID, b_accounts = [account], b_roots = [st_root st],
             b_mainTask = Some accTaskID, b_subtask = Some (account, i),
             b_origin = st_Next st, b_limit = st_Last st \<rparr>,
           task\<lparr>SubTasks := map_option
                   (map (\<lambda>(a, sts). if a = account then (a, sts[i := st\<lparr>st_requested := True\<rparr>])
                                     else (a, sts)))
                   (SubTasks task)\<rparr>)
      | None \<Rightarrow>
          (case drainStateTasks storageSets (gm_items (stateTasks task)) (stateTasks task) [] [] of
             (stt, accs, roots) \<Rightarrow>
               (\<lparr> b_id = taskID, b_accounts = accs, b_roots = roots,
                  b_mainTask = Some accTaskID, b_subtask = None, b_origin = 0, b_limit = 0 \<rparr>,
                task\<lparr>stateTasks := stt\<rparr>)))"

fun unprocStorages ::
  "(u64 \<times> accountTask) list \<Rightarrow> int \<Rightarrow> storageTaskBundle option \<Rightarrow> u64 list \<Rightarrow> 'sch manager \<Rightarrow>
   (storageTaskBundle option \<times> u64 list \<times> 'sch manager) outcome" where
  "unprocStorages [] cap storages draws s = Returns (storages, draws, s)"
| "unprocStorages ((accTaskID, task) # todo) cap storages draws s =
     (if gm_len (SubTasks task) = 0 \<and> gm_len (stateTasks task) = 0
      then unprocStorages todo cap storages draws s
      else
        bindO (genTaskID (storageTasks (m_tasks s)) draws) (\<lambda>(taskID, draws').
          case fillBundle taskID accTaskID (clampRequestSize cap div 1024) task of
            (b, task') \<Rightarrow>
              bindO (gm_put accTaskID task' (accountTasks (m_tasks s))) (\<lambda>tm.
                if length (b_accounts b) = 0
                then unprocStorages todo (clampRequestSize cap) (Some b) draws'
                       (s\<lparr>m_tasks := (m_tasks s)\<lparr>accountTasks := tm\<rparr>\<rparr>)
                else
                  bindO (addStorageTaskBundle taskID b ((m_tasks s)\<lparr>accountTasks := tm\<rparr>)) (\<lambda>t'.
                  bindO (addStorageTaskBundle taskID b (requesting s)) (\<lambda>rq.
                    if clampRequestSize cap - int (length (b_accounts b)) \<le> 0
                    then Returns (Some b, draws', s\<lparr>m_tasks := t', requesting := rq\<rparr>)
                    else unprocStorages todo (clampRequestSize cap - int (length (b_accounts b)))
                           (Some b) draws' (s\<lparr>m_tasks := t', requesting := rq\<rparr>))))))"

subsection \<open>Heal phase\<close>

text \<open>
  \<^verbatim>\<open>s.tasks.healer[0]\<close> is the pool of pending heal tasks; reading a field of it
  dereferences the pointer the map gives for key 0.
\<close>

definition healPool :: "tasks \<Rightarrow> healTask outcome" where
  "healPool t = (case gm_get (healer t) 0 of Some (Some pool) \<Rightarrow> Returns pool | _ \<Rightarrow> Panics NilDeref)"

definition setHealPool :: "healTask \<Rightarrow> 'sch manager \<Rightarrow> 'sch manager outcome" where
  "setHealPool pool s =
     bindO (gm_put 0 (Some pool) (healer (m_tasks s))) (\<lambda>hm.
       Returns (s\<lparr>m_tasks := (m_tasks s)\<lparr>healer := hm\<rparr>\<rparr>))"

definition healPending ::
  "(healTask \<Rightarrow> nat) \<Rightarrow> ('sch, 'sch manager) collaborators \<Rightarrow> 'sch manager \<Rightarrow> bool outcome" where
  "healPending queued env s =
     (if gm_len (healer (m_tasks s)) > 0
      then bindO (healPool (m_tasks s)) (\<lambda>pool.
             Returns (queued pool > 0 \<or> Pending env (scheduler s) > 0))
      else Returns (Pending env (scheduler s) > 0))"

fun putTrieTasks :: "bytes list \<Rightarrow> hash list \<Rightarrow> nat \<Rightarrow> (bytes, hash) gomap \<Rightarrow> (bytes, hash) gomap outcome" where
  "putTrieTasks [] mHashes i tt = Returns tt"
| "putTrieTasks (path # rest) mHashes i tt =
     (if i < length mHashes
      then bindO (gm_put path (mHashes ! i) tt) (putTrieTasks rest mHashes (Suc i))
      else Panics IndexOutOfRange)"

fun putCodeTasks :: "hash list \<Rightarrow> (hash, unit) gomap \<Rightarrow> (hash, unit) gomap outcome" where
  "putCodeTasks [] ct = Returns ct"
| "putCodeTasks (h # rest) ct = bindO (gm_put h () ct) (putCodeTasks rest)"

text \<open>
  \<^verbatim>\<open>scheduler.Missing\<close> and the two loops that queue what it returns in the pool.
\<close>

definition queueMissing ::
  "('sch, 'sch manager) collaborators \<Rightarrow> int \<Rightarrow> 'sch manager \<Rightarrow> (healTask \<times> 'sch manager) outcome" where
  "queueMissing env cnt s =
     (case Missing env (scheduler s) cnt of
        ((mPaths, mHashes, mCodes), sch) \<Rightarrow>
          bindO (healPool (m_tasks s)) (\<lambda>pool.
          bindO (putTrieTasks mPaths mHashes 0 (trieTasks pool)) (\<lambda>tt.
          bindO (putCodeTasks mCodes (h_codeTasks pool)) (\<lambda>ct.
          bindO (setHealPool (pool\<lparr>trieTasks := tt, h_codeTasks := ct\<rparr>) (s\<lparr>scheduler := sch\<rparr>)) (\<lambda>s'.
            Returns (pool\<lparr>trieTasks := tt, h_codeTasks := ct\<rparr>, s'))))))"

fun drainTrieTasks ::
  "int \<Rightarrow> (bytes \<times> hash) list \<Rightarrow> (bytes, hash) gomap \<Rightarrow> bytes list \<Rightarrow> hash list \<Rightarrow>
   (bytes, hash) gomap \<times> bytes list \<times> hash list" where
  "drainTrieTasks cap [] tt paths hashes = (tt, paths, hashes)"
| "drainTrieTasks cap ((path, h) # todo) tt paths hashes =
     (if int (length (paths @ [path])) \<ge> cap
      then (gm_delete path tt, paths @ [path], hashes @ [h])
      else drainTrieTasks cap todo (gm_delete path tt) (paths @ [path]) (hashes @ [h]))"

fun drainHealCodes ::
  "int \<Rightarrow> hash list \<Rightarrow> (hash, unit) gomap \<Rightarrow> hash list \<Rightarrow> (hash, unit) gomap \<times> hash list" where
  "drainHealCodes cap [] ct hashes = (ct, hashes)"
| "drainHealCodes cap (h # todo) ct hashes =
     (if int (length (hashes @ [h])) \<ge> cap then (gm_delete h ct, hashes @ [h])
      else drainHealCodes cap todo (gm_delete h ct) (hashes @ [h]))"

definition trieRequestCap :: "('sch, 'sch manager) collaborators \<Rightarrow> int \<Rightarrow> int" where
  "trieRequestCap env cap =
     (let cap1 = (if cap > maxTrieRequestCount then maxTrieRequestCount else cap);
          cap2 = healThrottled env cap1
      in if cap2 \<le> 0 then 1 else cap2)"

text \<open>
  The trie node loop. Each round takes one \<open>fuel\<close>; the result tells whether
  the function returned from inside the loop, and carries \<open>cap\<close> and \<open>healtask\<close>
  as the loop leaves them.
\<close>

fun healLoop ::
  "nat \<Rightarrow> ('sch, 'sch manager) collaborators \<Rightarrow> int \<Rightarrow> int \<Rightarrow> healTask option \<Rightarrow> u64 list \<Rightarrow>
   'sch manager \<Rightarrow> (bool \<times> int \<times> healTask option \<times> u64 list \<times> 'sch manager) outcome" where
  "healLoop 0 env n cap healtask draws s = Diverges"
| "healLoop (Suc fuel) env n cap healtask draws s =
     bindO (healPending (\<lambda>pool. length (h_hashes pool)) env s) (\<lambda>more.
       if \<not> more then Returns (False, cap, healtask, draws, s)
       else
         bindO (if gm_len (healer (m_tasks s)) = 0
                then setHealPool \<lparr> h_id = 0, trieTasks = gm_make, h_codeTasks = gm_make,
                                    h_paths = [], h_hashes = [], h_pathsets = [], h_task = None,
                                    h_root = 0, byteCodeReq = False \<rparr> s
                else Returns s) (\<lambda>s1.
         bindO (queueMissing env n s1) (\<lambda>(pool, s2).
           if gm_len (trieTasks pool) = 0 then Returns (True, cap, healtask, draws, s2)
           else
             case drainTrieTasks (trieRequestCap env cap) (gm_items (trieTasks pool))
                    (trieTasks pool) [] [] of
               (tt, paths, hashes) \<Rightarrow>
                 bindO (setHealPool (pool\<lparr>trieTasks := tt\<rparr>) s2) (\<lambda>s3.
                 bindO (sortByAccountPath env paths hashes) (\<lambda>(paths', hashes', syncPaths, pathsets).
                 bindO (genTaskID (healer (m_tasks s3)) draws) (\<lambda>(taskID, draws').
                 bindO (addHealerTask taskID
                          (Some \<lparr> h_id = taskID, trieTasks = None, h_codeTasks = None,
                                  h_paths = paths', h_hashes = hashes', h_pathsets = pathsets,
                                  h_task = Some 0, h_root = root s3, byteCodeReq = False \<rparr>)
                          (m_tasks s3)) (\<lambda>t'.
                 bindO (addHealerTask taskID
                          (Some \<lparr> h_id = taskID, trieTasks = None, h_codeTasks = None,
                                  h_paths = paths', h_hashes = hashes', h_pathsets = pathsets,
                                  h_task = Some 0, h_root = root s3, byteCodeReq = False \<rparr>)
                          (requesting s3)) (\<lambda>rq.
                   healLoop fuel env n (n - int (length hashes'))
                     (Some \<lparr> h_id = taskID, trieTasks = None, h_codeTasks = None,
                             h_paths = paths', h_hashes = hashes', h_pathsets = pathsets,
                             h_task = Some 0, h_root = root s3, byteCodeReq = False \<rparr>)
                     draws' (s3\<lparr>m_tasks := t', requesting := rq\<rparr>)))))))))"

text \<open>
  The bytecode loop. What it adds to \<^verbatim>\<open>requesting\<close> under the new id is
  \<open>healtask\<close>, as the source has it.
\<close>

fun codeLoop ::
  "nat \<Rightarrow> ('sch, 'sch manager) collaborators \<Rightarrow> int \<Rightarrow> healTask option \<Rightarrow> healTask option \<Rightarrow>
   u64 list \<Rightarrow> 'sch manager \<Rightarrow> (healTask option \<times> u64 list \<times> 'sch manager) outcome" where
  "codeLoop 0 env cap healtask codetask draws s = Diverges"
| "codeLoop (Suc fuel) env cap healtask codetask draws s =
     bindO (healPending (\<lambda>pool. gm_len (h_codeTasks pool)) env s) (\<lambda>more.
       if \<not> more then Returns (codetask, draws, s)
       else
         bindO (queueMissing env cap s) (\<lambda>(pool, s2).
           if gm_len (h_codeTasks pool) = 0 then Returns (codetask, draws, s2)
           else if (if cap > maxCodeRequestCount then maxCodeRequestCount else cap) < 0
           then Panics MakeSliceCap
           else
             case drainHealCodes (if cap > maxCodeRequestCount then maxCodeRequestCount else cap)
                    (map fst (gm_items (h_codeTasks pool))) (h_codeTasks pool) [] of
               (ct, hashes) \<Rightarrow>
                 bindO (setHealPool (pool\<lparr>h_codeTasks := ct\<rparr>) s2) (\<lambda>s3.
                 bindO (genTaskID (healer (m_tasks s3)) draws) (\<lambda>(taskID, draws').
                 bindO (addHealerTask taskID
                          (Some \<lparr> h_id = taskID, trieTasks = None, h_codeTasks = None,
                                  h_paths = [], h_hashes = hashes, h_pathsets = [],
                                  h_task = Some 0, h_root = 0, byteCodeReq = True \<rparr>)
                          (m_tasks s3)) (\<lambda>t'.
                 bindO (addHealerTask taskID healtask (requesting s3)) (\<lambda>rq.
                   codeLoop fuel env (if cap > maxCodeRequestCount then maxCodeRequestCount else cap)
                     healtask
                     (Some \<lparr> h_id = taskID, trieTasks = None, h_codeTasks = None,
                             h_paths = [], h_hashes = hashes, h_pathsets = [],
                             h_task = Some 0, h_root = 0, byteCodeReq = True \<rparr>)
                     draws' (s3\<lparr>m_tasks := t', requesting := rq\<rparr>)))))))"

definition getBatchFromUnprocessed ::
  "('sch, 'sch manager) collaborators \<Rightarrow> nat \<Rightarrow> int \<Rightarrow> bool \<Rightarrow> u64 list \<Rightarrow> 'sch manager \<Rightarrow>
   (batch \<times> u64 list \<times> 'sch manager) outcome" where
  "getBatchFromUnprocessed env fuel n withHealTasks draws s =
     (if n < 0 then Panics MakeSliceCap
      else
      bindO (unprocAccounts n (gm_items (accountTasks (m_tasks s))) [] s) (\<lambda>(ret1, accounts, s1).
        if ret1 then Returns ((accounts, [], None, None, None), draws, s1)
        else
      bindO (unprocCodes (n - int (length accounts)) (gm_items (accountTasks (m_tasks s1))) [] s1)
        (\<lambda>(ret2, codes, s2).
        if ret2 then Returns ((accounts, codes, None, None, None), draws, s2)
        else
      bindO (unprocStorages (gm_items (accountTasks (m_tasks s2)))
               (n - int (length accounts) - int (length codes)) None draws s2)
        (\<lambda>(storages, draws3, s3).
        case storages of
          None \<Rightarrow> Panics NilDeref
        | Some st \<Rightarrow>
            if length accounts + length codes + length (b_accounts st) > 0
            then Returns ((accounts, codes, storages, None, None), draws3, s3)
            else if \<not> withHealTasks
            then Returns ((accounts, codes, storages, None, None), draws3, s3)
            else
              bindO (healLoop fuel env n n None draws3 s3) (\<lambda>(ret4, cap4, healtask, draws4, s4).
                if ret4 then Returns ((accounts, codes, storages, healtask, None), draws4, s4)
                else
                  bindO (codeLoop fuel env cap4 healtask None draws4 s4) (\<lambda>(codetask, draws5, s5).
                    Returns ((accounts, codes, storages, healtask, codetask), draws5, s5)))))))"

subsection \<open>GetNextBatch\<close>

text \<open>
  \<^verbatim>\<open>GetNextBatch\<close> reads \<^verbatim>\<open>storages.roots\<close>, \<^verbatim>\<open>healtask.hashes\<close> and
  \<^verbatim>\<open>codetask.hashes\<close> of what \<^verbatim>\<open>getBatchFromRetries\<close> returned, each through its
  pointer.
\<close>

definition GetNextBatch ::
  "('sch, 'sch manager) collaborators \<Rightarrow> nat \<Rightarrow> u64 list \<Rightarrow> 'sch manager \<Rightarrow>
   (batch \<times> u64 list \<times> 'sch manager) outcome" where
  "GetNextBatch env fuel draws s =
     bindO (getBatchFromRetries (StatesPerRequest env) s)
       (\<lambda>((accounts, codes, storages, healtask, codetask), s1).
     case storages of None \<Rightarrow> Panics NilDeref | Some st \<Rightarrow>
     case healtask of None \<Rightarrow> Panics NilDeref | Some ht \<Rightarrow>
     case codetask of None \<Rightarrow> Panics NilDeref | Some ct \<Rightarrow>
       let nItems = int (length accounts) + int (length codes) + int (length (b_roots st))
                    + int (length (h_hashes ht)) + int (length (h_hashes ct));
           cap = StatesPerRequest env - nItems
       in if cap = 0 then Returns ((accounts, codes, storages, healtask, codetask), draws, s1)
          else if gm_len (accountTasks (m_tasks s1)) = 0 \<and> Pending env (scheduler s1) = 0
          then (if nItems = 0
                then bindO (SyncCompleted env s1) (\<lambda>s2.
                       Returns ((accounts, codes, storages, healtask, codetask), draws, s2))
                else Returns ((accounts, codes, storages, healtask, codetask), draws, s1))
          else
            bindO (getBatchFromUnprocessed env fuel cap (healtask = None \<and> codetask = None) draws s1)
              (\<lambda>((newAccounts, newCodes, newStorageTaskBundle, newHealTask, newCodeTask), draws', s2).
                 Returns ((accounts @ newAccounts, codes @ newCodes, newStorageTaskBundle,
                           (if healtask = None \<and> codetask = None then newHealTask else healtask),
                           (if healtask = None \<and> codetask = None then newCodeTask else codetask)),
                          draws', s2)))"


section \<open>RLP of the two account structs\<close>

text \<open>
  A reference codec: the recursive length prefix encoding as go-ethereum's
  \<^verbatim>\<open>rlp\<close> package applies it to \<^verbatim>\<open>SlimAccount\<close> and \<^verbatim>\<open>types.StateAccount\<close>, a list
  of four strings (the nonce and the balance as minimal big-endian numbers). A
  negative balance is an encoding error; the decoder refuses non-canonical
  input, and a root that is not 32 bytes long. The theorems below hold for any
  codec; this one instantiates them.
\<close>

function be_min :: "nat \<Rightarrow> bytes" where
  "be_min n = (if n = 0 then [] else be_min (n div 256) @ [word_of_nat (n mod 256)])"
  by pat_completeness auto
termination
  by (relation "measure id") auto

definition rlp_header :: "nat \<Rightarrow> nat \<Rightarrow> bytes" where
  "rlp_header off n =
     (if n \<le> 55 then [word_of_nat (off + n)]
      else word_of_nat (off + 55 + length (be_min n)) # be_min n)"

definition rlp_string :: "bytes \<Rightarrow> bytes" where
  "rlp_string bs =
     (case bs of
        [b] \<Rightarrow> if b < 0x80 then [b] else rlp_header 0x80 1 @ bs
      | _ \<Rightarrow> rlp_header 0x80 (length bs) @ bs)"

definition rlp_uint :: "nat \<Rightarrow> bytes" where
  "rlp_uint n = rlp_string (be_min n)"

definition rlp_list :: "bytes list \<Rightarrow> bytes" where
  "rlp_list items = rlp_header 0xc0 (length (concat items)) @ concat items"

datatype rlpKind = RString | RList

definition rlp_take :: "rlpKind \<Rightarrow> nat \<Rightarrow> bytes \<Rightarrow> (rlpKind \<times> bytes \<times> bytes) option" where
  "rlp_take k n rest = (if n \<le> length rest then Some (k, take n rest, drop n rest) else None)"

definition rlp_long :: "rlpKind \<Rightarrow> nat \<Rightarrow> bytes \<Rightarrow> (rlpKind \<times> bytes \<times> bytes) option" where
  "rlp_long k ll rest =
     (if ll \<le> length rest \<and> take 1 rest \<noteq> [0] \<and> be_nat (take ll rest) > 55
      then rlp_take k (be_nat (take ll rest)) (drop ll rest) else None)"

definition rlp_split :: "bytes \<Rightarrow> (rlpKind \<times> bytes \<times> bytes) option" where
  "rlp_split bs =
     (case bs of
        [] \<Rightarrow> None
      | b # rest \<Rightarrow>
          if b < 0x80 then Some (RString, [b], rest)
          else if b \<le> 0xb7 then
            (case rlp_take RString (unat b - 0x80) rest of
               Some (k, [c], r) \<Rightarrow> if c < 0x80 then None else Some (k, [c], r)
             | x \<Rightarrow> x)
          else if b \<le> 0xbf then rlp_long RString (unat b - 0xb7) rest
          else if b \<le> 0xf7 then rlp_take RList (unat b - 0xc0) rest
          else rlp_long RList (unat b - 0xf7) rest)"

primrec rlp_strings :: "nat \<Rightarrow> bytes \<Rightarrow> bytes list option" where
  "rlp_strings 0 bs = (if bs = [] then Some [] else None)"
| "rlp_strings (Suc k) bs =
     (case rlp_split bs of
        Some (RString, c, rest) \<Rightarrow> map_option ((#) c) (rlp_strings k rest)
      | _ \<Rightarrow> None)"

definition rlp_canonical_int :: "bytes \<Rightarrow> bool" where
  "rlp_canonical_int bs = (take 1 bs \<noteq> [0])"

definition rlpEncodeSlim :: "SlimAccount \<Rightarrow> bytes option" where
  "rlpEncodeSlim slim =
     (if slimBalance slim < 0 then None
      else Some (rlp_list [rlp_uint (unat (slimNonce slim)), rlp_uint (nat (slimBalance slim)),
                           rlp_string (slimRoot slim), rlp_string (slimCodeHash slim)]))"

definition rlpEncodeAccount :: "StateAccount \<Rightarrow> bytes option" where
  "rlpEncodeAccount a =
     (if Balance a < 0 then None
      else Some (rlp_list [rlp_uint (unat (Nonce a)), rlp_uint (nat (Balance a)),
                           rlp_string (HashBytes (Root a)), rlp_string (CodeHash a)]))"

definition rlp_fields :: "bytes \<Rightarrow> bytes list option" where
  "rlp_fields data =
     (case rlp_split data of
        Some (RList, payload, []) \<Rightarrow>
          (case rlp_strings 4 payload of
             Some [n, b, r, c] \<Rightarrow>
               if rlp_canonical_int n \<and> length n \<le> 8 \<and> rlp_canonical_int b
               then Some [n, b, r, c] else None
           | _ \<Rightarrow> None)
      | _ \<Rightarrow> None)"

definition rlpDecodeSlim :: "bytes \<Rightarrow> SlimAccount option" where
  "rlpDecodeSlim data =
     (case rlp_fields data of
        Some [n, b, r, c] \<Rightarrow>
          Some \<lparr> slimNonce = word_of_nat (be_nat n), slimBalance = int (be_nat b),
                 slimRoot = r, slimCodeHash = c \<rparr>
      | _ \<Rightarrow> None)"

definition rlpDecodeAccount :: "bytes \<Rightarrow> StateAccount option" where
  "rlpDecodeAccount data =
     (case rlp_fields data of
        Some [n, b, r, c] \<Rightarrow>
          if length r = 32
          then Some \<lparr> Nonce = word_of_nat (be_nat n), Balance = int (be_nat b),
                      Root = BytesToHash r, CodeHash = c \<rparr>
          else None
      | _ \<Rightarrow> None)"

definition gethRLP :: rlpCodec where
  "gethRLP = \<lparr> encodeSlim = rlpEncodeSlim, decodeSlim = rlpDecodeSlim,
               encodeAccount = rlpEncodeAccount, decodeAccount = rlpDecodeAccount \<rparr>"

text \<open>Sample accounts, and the slim encoding of the first.\<close>

definition contractAccount :: StateAccount where
  "contractAccount = \<lparr> Nonce = 1, Balance = 1000, Root = 0x1234, CodeHash = HashBytes 0xabcdef \<rparr>"

definition contractSlimRLP :: bytes where
  "contractSlimRLP =
     [0xf8, 0x46, 0x01, 0x82, 0x03, 0xe8, 0xa0] @ HashBytes 0x1234 @ [0xa0] @ HashBytes 0xabcdef"

definition noCodeHashAccount :: StateAccount where
  "noCodeHashAccount = \<lparr> Nonce = 0, Balance = 0, Root = EmptyRootHash, CodeHash = [] \<rparr>"

text \<open>
  A sample \<^verbatim>\<open>stateWriter\<close>: the batch is the list of its entries, keyed as
  \<^verbatim>\<open>rawdb\<close> keys snapshot entries (a one-byte prefix and the hashes).
\<close>

definition listBatch :: "(bytes \<times> bytes) list batchOps" where
  "listBatch =
     \<lparr> WriteAccountSnapshot = (\<lambda>b h blob. b @ [(0x61 # HashBytes h, blob)]),
       WriteStorageSnapshot = (\<lambda>b a h v. b @ [(0x6f # HashBytes a @ HashBytes h, v)]),
       ValueSize = (\<lambda>b. int (sum_list (map (\<lambda>(k, v). length k + length v) b))),
       Write = (\<lambda>b. b),
       Reset = (\<lambda>b. []) \<rparr>"

definition emptyHealState :: "(bytes \<times> bytes) list healState" where
  "emptyHealState = \<lparr> stateWriter = [], accountHealed = 0, accountHealedBytes = 0,
                      storageHealed = 0, storageHealedBytes = 0 \<rparr>"

section \<open>Auxiliary notions for the statements\<close>

text \<open>
  The state in which the classification loop of \<^verbatim>\<open>processAccountResponse\<close> can
  run \<open>n\<close> rounds: the maps it writes are made, the flag slices have length \<open>n\<close>.
\<close>

definition classifiable :: "nat \<Rightarrow> (hash, unit) gomap \<times> accountTask \<Rightarrow> bool" where
  "classifiable n rt \<longleftrightarrow>
     fst rt \<noteq> None \<and> a_codeTasks (snd rt) \<noteq> None \<and> stateTasks (snd rt) \<noteq> None
     \<and> length (needCode (snd rt)) = n \<and> length (needState (snd rt)) = n
     \<and> length (needHeal (snd rt)) = n"

text \<open>
  Section 4.E of the specification in its own words: the commit signature block
  \<open>k\<close> is verified against is taken from block \<open>k + 1\<close> when that exists, and
  parsed from the block's own commit signature otherwise. \<open>chainBefore\<close> is the
  chain when block \<open>k\<close> is reached, \<open>blockResult\<close> what verifying and inserting
  block \<open>k\<close> returns there.
\<close>

definition spec_commitSig :: "'bc chainOps \<Rightarrow> Block list \<Rightarrow> nat \<Rightarrow> string + (bytes \<times> bytes)" where
  "spec_commitSig ops blocks k =
     (if k + 1 < length blocks
      then Inr (LastCommitSignature (Header (blocks ! (k + 1))),
                LastCommitBitmap (Header (blocks ! (k + 1))))
      else ParseCommitSigAndBitmap ops (CurrentCommitSig (blocks ! k)))"

primrec chainBefore :: "'bc chainOps \<Rightarrow> 'bc \<Rightarrow> Block list \<Rightarrow> nat \<Rightarrow> 'bc" where
  "chainBefore ops bc blocks 0 = bc"
| "chainBefore ops bc blocks (Suc k) =
     fst (verifyAndInsertBlock ops (chainBefore ops bc blocks k) (blocks ! k) (drop (k + 1) blocks))"

definition blockResult :: "'bc chainOps \<Rightarrow> 'bc \<Rightarrow> Block list \<Rightarrow> nat \<Rightarrow> blockError option" where
  "blockResult ops bc blocks k =
     snd (verifyAndInsertBlock ops (chainBefore ops bc blocks k) (blocks ! k) (drop (k + 1) blocks))"

text \<open>
  A sample chain: its state is the number of inserted blocks; a signature is
  good when it is the single byte 1; a commit signature parses into its first
  byte and the rest.
\<close>

definition countingChain :: "nat chainOps" where
  "countingChain =
     \<lparr> VerifyHeaderSignature = (\<lambda>c h sg bm. if sg = [1] then None else Some ''bad signature''),
       VerifyHeader = (\<lambda>c h seal. None),
       InsertChain = (\<lambda>c bs verify. (c + length bs, None)),
       ParseCommitSigAndBitmap =
         (\<lambda>bs. if bs = [] then Inl ''short commit sig'' else Inr (take 1 bs, drop 1 bs)) \<rparr>"

definition block0 :: Block where
  "block0 = \<lparr> Header = \<lparr> hdr_payload = [0], LastCommitSignature = [], LastCommitBitmap = [] \<rparr>,
              CurrentCommitSig = [9, 9] \<rparr>"

definition block1 :: Block where
  "block1 = \<lparr> Header = \<lparr> hdr_payload = [1], LastCommitSignature = [1], LastCommitBitmap = [7] \<rparr>,
              CurrentCommitSig = [2, 7] \<rparr>"

text \<open>A storage bundle as dispatched, and the manager that holds it in \<^verbatim>\<open>requesting\<close>.\<close>

definition bundle7 :: storageTaskBundle where
  "bundle7 = \<lparr> b_id = 7, b_accounts = [1], b_roots = [2], b_mainTask = Some 3,
               b_subtask = None, b_origin = 0, b_limit = 0 \<rparr>"

definition dispatched7 :: "unit manager" where
  "dispatched7 = (newFullStateDownloadManager ())
     \<lparr> requesting := newTasks\<lparr>storageTasks := Some [(7, bundle7)]\<rparr> \<rparr>"

text \<open>A database that holds every code and trie node, and a task ending at hash 5.\<close>

definition fullDB :: stateDB where
  "fullDB = \<lparr> HasCodeWithPrefix = (\<lambda>h. True), HasTrieNode = (\<lambda>owner h. True) \<rparr>"

definition taskTo5 :: accountTask where
  "taskTo5 = \<lparr> task_id = 11, Next = 0, Last = 5, SubTasks = gm_make, pend = 0,
               needCode = [], needState = [], needHeal = [], a_codeTasks = None,
               stateTasks = None, requested = True, task_done = False, res = None \<rparr>"

text \<open>
  A saved sync status with two account tasks; a scheduler that reports one
  pending request and hands out one missing trie node; a manager whose only
  account task is requested and has one large contract, already requested.
\<close>

definition savedProgress :: SyncProgress where
  "savedProgress =
     \<lparr> Tasks = Some [(5, \<lparr> sv_Next = 0, sv_Last = 0xff, sv_SubTasks = None \<rparr>),
                     (6, \<lparr> sv_Next = 0x100, sv_Last = MaxHash, sv_SubTasks = None \<rparr>)],
       AccountSynced = 3, AccountBytes = 300, BytecodeSynced = 0, BytecodeBytes = 0,
       StorageSynced = 0, StorageBytes = 0, TrienodeHealSynced = 0, TrienodeHealBytes = 0,
       BytecodeHealSynced = 0, BytecodeHealBytes = 0 \<rparr>"

definition healEnv :: "(nat, nat manager) collaborators" where
  "healEnv =
     \<lparr> StatesPerRequest = 10,
       Pending = (\<lambda>sch. 1),
       Missing = (\<lambda>sch n. if sch = 0 then (([[1, 2]], [0xaa], []), 1) else (([], [], []), sch)),
       healThrottled = (\<lambda>cap. cap),
       SyncCompleted = Returns,
       NewSyncPath = gethNewSyncPath,
       sortOrder = insertionOrder \<rparr>"

definition healReady :: "nat manager" where
  "healReady = (newFullStateDownloadManager 0)
     \<lparr> m_tasks := newTasks
        \<lparr> accountTasks := Some [(5, (newAccountTask 5 0 MaxHash)
             \<lparr> requested := True,
               SubTasks := Some [(0x20, [\<lparr> st_Next = 0, st_Last = MaxHash, st_root = 0x77,
                                          st_requested = True, st_done = False \<rparr>])] \<rparr>)] \<rparr> \<rparr>"

text \<open>
  A node generator that keeps the list of its updates, and a state whose only
  account task is \<open>taskTo5\<close>, registered under its id 11.
\<close>

definition listGenerator :: "(bytes \<times> bytes) list generatorOps" where
  "listGenerator =
     \<lparr> trieUpdate = (\<lambda>g key v. g @ [(key, v)]), trieCommit = (\<lambda>g. g),
       genValueSize = (\<lambda>g. 0), genWrite = (\<lambda>g. g), genReset = (\<lambda>g. g) \<rparr>"

definition registered11 :: "(unit, (bytes \<times> bytes) list) syncState" where
  "registered11 =
     \<lparr> mgr = (newFullStateDownloadManager ())
               \<lparr> m_tasks := newTasks\<lparr>accountTasks := Some [(11, taskTo5)]\<rparr> \<rparr>,
       generator = (\<lambda>k. []),
       snapshotsWritten = [] \<rparr>"


text \<open>
  The order of heal paths in words: first segments compared lexicographically
  as byte strings; on equal first segments a path of one segment comes before a
  path of two; two paths of two segments compare by their second segment.
\<close>

definition spec_pathLess :: "bytes list \<Rightarrow> bytes list \<Rightarrow> bool" where
  "spec_pathLess a b =
     (ord_class.lexordp (a ! 0) (b ! 0) \<or>
      (a ! 0 = b ! 0 \<and>
        (length a = 1 \<and> length b = 2 \<or>
         length a = 2 \<and> length b = 2 \<and> ord_class.lexordp (a ! 1) (b ! 1))))"



text \<open>
  What \<^verbatim>\<open>sort.Sort\<close> promises of the order it leaves \<open>n\<close> rows in: every position
  once, and no row strictly less than a row before it.
\<close>

definition sortsRows :: "((nat \<Rightarrow> nat \<Rightarrow> bool) \<Rightarrow> nat \<Rightarrow> nat list) \<Rightarrow> (nat \<Rightarrow> nat \<Rightarrow> bool) \<Rightarrow> nat \<Rightarrow> bool" where
  "sortsRows srt lt n =
     (mset (srt lt n) = mset [0..<n] \<and> sorted_wrt (\<lambda>i j. \<not> lt j i) (srt lt n))"









section \<open>Theorems\<close>

subsection \<open>Request sizing constants\<close>

text \<open>
  C9 (as stated, refuted): the claim fixes \<open>maxCodeRequestCount\<close> at 85. The source
  divides first and multiplies afterwards, which gives 21 * 4.
\<close>

theorem maxCodeRequestCount_not_85:
  "maxCodeRequestCount \<noteq> 85"
  by (simp add: maxCodeRequestCount_def maxRequestSize_def)

text \<open>
  C9 (amended): with \<open>maxRequestSize\<close> = 512 KiB, \<open>maxCodeRequestCount\<close> equals 84
  and \<open>maxTrieRequestCount\<close> equals 1024.
\<close>

theorem request_count_constants:
  "maxRequestSize = 524288 \<and> maxCodeRequestCount = 84 \<and> maxTrieRequestCount = 1024"
  by (simp add: maxCodeRequestCount_def maxTrieRequestCount_def maxRequestSize_def)

subsection \<open>Go maps and outcomes\<close>

declare be_min.simps [simp del]
declare verifyAndInsertFrom.simps [simp del]

lemma gm_get_put:
  "gm_put k v m = Returns m' \<Longrightarrow> gm_get m' k' = (if k' = k then Some v else gm_get m k')"
  by (auto simp: gm_put_def gm_get_def gm_items_def update_conv' split: option.splits)

lemma gm_get_delete:
  "gm_get (gm_delete k m) k' = (if k' = k then None else gm_get m k')"
  by (cases m) (auto simp: gm_delete_def gm_get_def gm_items_def delete_conv')

lemma gm_put_Some: "m \<noteq> None \<Longrightarrow> \<exists>m'. gm_put k v m = Returns m' \<and> m' \<noteq> None"
  by (cases m) (auto simp: gm_put_def)

lemma bindO_Returns:
  "bindO x f = Returns y \<longleftrightarrow> (\<exists>a. x = Returns a \<and> f a = Returns y)"
  by (cases x) auto

subsection \<open>Error path\<close>

lemma errAccounts_keeps:
  "errAccounts accounts s = Returns s' \<Longrightarrow>
     (gm_has (accountTasks (retries s)) k \<longrightarrow> gm_has (accountTasks (retries s')) k)
     \<and> (\<not> gm_has (accountTasks (requesting s)) k \<longrightarrow> \<not> gm_has (accountTasks (requesting s')) k)
     \<and> storageTasks (requesting s') = storageTasks (requesting s)
     \<and> storageTasks (retries s') = storageTasks (retries s)"
proof (induction accounts arbitrary: s)
  case Nil
  then show ?case by simp
next
  case (Cons task rest)
  from Cons.prems obtain rt where
    rt: "addAccountTask (task_id task) task (retries s) = Returns rt"
    and rest: "errAccounts rest
         (s\<lparr>requesting := deleteAccountTask (task_id task) (requesting s), retries := rt\<rparr>) = Returns s'"
    by (auto simp: bindO_Returns)
  from rt obtain m where m: "gm_put (task_id task) task (accountTasks (retries s)) = Returns m"
    and rt_eq: "rt = (retries s)\<lparr>accountTasks := m\<rparr>"
    by (auto simp: addAccountTask_def bindO_Returns)
  from Cons.IH [OF rest] show ?case
    by (auto simp: rt_eq gm_has_def gm_get_put [OF m] deleteAccountTask_def gm_get_delete)
qed

lemma errAccounts_moves:
  "errAccounts accounts s = Returns s' \<Longrightarrow> task \<in> set accounts \<Longrightarrow>
     gm_has (accountTasks (retries s')) (task_id task)
     \<and> \<not> gm_has (accountTasks (requesting s')) (task_id task)"
proof (induction accounts arbitrary: s)
  case Nil
  then show ?case by simp
next
  case (Cons a rest)
  from Cons.prems(1) obtain rt where
    rt: "addAccountTask (task_id a) a (retries s) = Returns rt"
    and rest: "errAccounts rest
         (s\<lparr>requesting := deleteAccountTask (task_id a) (requesting s), retries := rt\<rparr>) = Returns s'"
    by (auto simp: bindO_Returns)
  from rt obtain m where m: "gm_put (task_id a) a (accountTasks (retries s)) = Returns m"
    and rt_eq: "rt = (retries s)\<lparr>accountTasks := m\<rparr>"
    by (auto simp: addAccountTask_def bindO_Returns)
  show ?case
  proof (cases "task \<in> set rest")
    case True
    from Cons.IH [OF rest True] show ?thesis .
  next
    case False
    with Cons.prems(2) have "task = a" by simp
    with errAccounts_keeps [OF rest, of "task_id a"] show ?thesis
      by (simp add: rt_eq gm_has_def gm_get_put [OF m] deleteAccountTask_def gm_get_delete)
  qed
qed

text \<open>
  What \<^verbatim>\<open>HandleRequestError\<close> does with a storage bundle, whatever the rest of
  the batch: when the call returns, the bundle is a storage task of
  \<^verbatim>\<open>requesting\<close> and is no storage task of \<^verbatim>\<open>retries\<close>.
\<close>

lemma errCodes_storage:
  "errCodes codes s = Returns s' \<Longrightarrow>
     storageTasks (requesting s') = storageTasks (requesting s)
     \<and> storageTasks (retries s') = storageTasks (retries s)"
proof (induction codes arbitrary: s)
  case Nil
  then show ?case by simp
next
  case (Cons code rest)
  from Cons.prems obtain rt where
    rt: "addCodeTask code (retries s) = Returns rt"
    and rest: "errCodes rest
         (s\<lparr>requesting := deleteCodeTask code (requesting s), retries := rt\<rparr>) = Returns s'"
    by (auto simp: bindO_Returns)
  from rt have "storageTasks rt = storageTasks (retries s)"
    by (auto simp: addCodeTask_def bindO_Returns)
  with Cons.IH [OF rest] show ?case
    by (simp add: deleteCodeTask_def)
qed

lemma errHeal_storage:
  "errHeal h s = Returns s' \<Longrightarrow>
     storageTasks (requesting s') = storageTasks (requesting s)
     \<and> storageTasks (retries s') = storageTasks (retries s)"
  by (cases h) (auto simp: errHeal_def bindO_Returns addHealerTask_def deleteHealerTask_def)

lemma HandleRequestError_storage_bundle:
  assumes "HandleRequestError accounts codes (Some b) healtask codetask s = Returns s'"
  shows "gm_get (storageTasks (requesting s')) (b_id b) = Some b
         \<and> gm_get (storageTasks (retries s')) (b_id b) = None"
proof -
  from assms obtain s1 s2 s3 s4 where
    s1: "errAccounts accounts s = Returns s1" and s2: "errCodes codes s1 = Returns s2"
    and s3: "errStorages (Some b) s2 = Returns s3" and s4: "errHeal healtask s3 = Returns s4"
    and s5: "errHeal codetask s4 = Returns s'"
    by (auto simp: HandleRequestError_def bindO_Returns)
  from s3 obtain m where m: "gm_put (b_id b) b (storageTasks (requesting s2)) = Returns m"
    and rq: "storageTasks (requesting s3) = m"
    and rt: "storageTasks (retries s3) = gm_delete (b_id b) (storageTasks (retries s2))"
    by (auto simp: errStorages_def bindO_Returns addStorageTaskBundle_def deleteStorageTaskBundle_def)
  from errHeal_storage [OF s4] errHeal_storage [OF s5] rq rt
  show ?thesis
    by (simp add: gm_get_put [OF m] gm_get_delete)
qed

text \<open>
  C2 (the code at a failing input): a storage bundle that is in \<^verbatim>\<open>requesting\<close>
  when its request fails is still in \<^verbatim>\<open>requesting\<close>, and is not in \<^verbatim>\<open>retries\<close>,
  after \<^verbatim>\<open>HandleRequestError\<close>; the claim has it the other way round.
\<close>

theorem HandleRequestError_bundle_not_retried:
  "(case HandleRequestError [] [] (Some bundle7) None None dispatched7 of
      Returns s' \<Rightarrow> gm_has (storageTasks (requesting s')) 7
                    \<and> \<not> gm_has (storageTasks (retries s')) 7
    | _ \<Rightarrow> False)"
  by (simp add: HandleRequestError_def errStorages_def errHeal_def dispatched7_def bundle7_def
      newFullStateDownloadManager_def newTasks_def addStorageTaskBundle_def
      deleteStorageTaskBundle_def gm_put_def gm_delete_def gm_make_def gm_has_def gm_get_def
      gm_items_def AList.delete_eq)

subsection \<open>Slim account encoding\<close>

lemma be_bytes_numeral [simp]:
  "be_bytes (numeral k) n = be_bytes (pred_numeral k) (n div 256) @ [word_of_nat (n mod 256)]"
  by (simp only: numeral_eq_Suc be_bytes.simps)

lemma rlp_strings_numeral [simp]:
  "rlp_strings (numeral k) bs =
     (case rlp_split bs of
        Some (RString, c, rest) \<Rightarrow> map_option ((#) c) (rlp_strings (pred_numeral k) rest)
      | _ \<Rightarrow> None)"
  by (simp only: numeral_eq_Suc rlp_strings.simps)

lemmas rlp_enc_defs = SlimAccountRLP_def gethRLP_def toSlim_def rlpEncodeSlim_def
  rlpEncodeAccount_def rlp_list_def rlp_uint_def rlp_string_def rlp_header_def be_min.simps
  HashBytes_def EmptyRootHash_def EmptyCodeHash_def

lemmas rlp_dec_defs = FullAccount_def FullAccountRLP_def fromSlim_def rlpDecodeSlim_def
  rlpDecodeAccount_def rlp_fields_def rlp_split_def rlp_take_def rlp_long_def
  rlp_canonical_int_def BytesToHash_def be_nat_def

lemma be_nat_snoc: "be_nat (xs @ [b]) = be_nat xs * 256 + unat b"
  by (simp add: be_nat_def)

lemma length_be_bytes [simp]: "length (be_bytes k n) = k"
  by (induction k arbitrary: n) auto

lemma be_nat_be_bytes: "be_nat (be_bytes k n) = n mod 256 ^ k"
proof (induction k arbitrary: n)
  case 0
  then show ?case by (simp add: be_nat_def)
next
  case (Suc k)
  have "unat (word_of_nat (n mod 256) :: byte) = n mod 256"
    by (simp add: unat_of_nat)
  then have "be_nat (be_bytes (Suc k) n) = (n div 256 mod 256 ^ k) * 256 + n mod 256"
    by (simp add: be_nat_snoc Suc.IH)
  also have "\<dots> = n mod 256 ^ Suc k"
    by (simp add: mod_mult2_eq)
  finally show ?case .
qed

lemma BytesToHash_HashBytes: "BytesToHash (HashBytes h) = h"
proof -
  have "unat h < 2 ^ 256"
    using unsigned_less [of h, where ?'a = nat] by simp
  then have "unat h mod 256 ^ 32 = unat h"
    by simp
  then show ?thesis
    by (simp add: BytesToHash_def HashBytes_def be_nat_be_bytes del: be_bytes_numeral)
qed

lemma length_HashBytes: "length (HashBytes h) = 32"
  by (simp add: HashBytes_def del: be_bytes_numeral)

lemma HashBytes_nonempty: "HashBytes h \<noteq> []"
  using length_HashBytes [of h] by auto

lemma fromSlim_toSlim:
  "CodeHash a \<noteq> [] \<Longrightarrow> fromSlim (toSlim a) = a"
  by (cases a) (simp add: fromSlim_def toSlim_def BytesToHash_HashBytes HashBytes_nonempty)

text \<open>
  C6 (as stated, refuted): the code hash of a \<^verbatim>\<open>types.StateAccount\<close> is a byte
  slice. For the account whose code hash is the empty slice, the slim encoding
  is the four empty strings, and decoding puts the hash of the empty code where
  the account had none; the full encoding of the result is not the encoding of
  the account.
\<close>

theorem slim_roundtrip_loses_empty_code_hash:
  "SlimAccountRLP gethRLP noCodeHashAccount = Returns [0xc4, 0x80, 0x80, 0x80, 0x80]
   \<and> FullAccount gethRLP [0xc4, 0x80, 0x80, 0x80, 0x80] =
       Some (noCodeHashAccount\<lparr>CodeHash := HashBytes EmptyCodeHash\<rparr>)
   \<and> CodeHash noCodeHashAccount \<noteq> HashBytes EmptyCodeHash
   \<and> FullAccountRLP gethRLP [0xc4, 0x80, 0x80, 0x80, 0x80] \<noteq>
       encodeAccount gethRLP noCodeHashAccount"
proof -
  have "SlimAccountRLP gethRLP noCodeHashAccount = Returns [0xc4, 0x80, 0x80, 0x80, 0x80]"
    by (simp add: rlp_enc_defs noCodeHashAccount_def)
  moreover have "FullAccount gethRLP [0xc4, 0x80, 0x80, 0x80, 0x80] =
       Some (noCodeHashAccount\<lparr>CodeHash := HashBytes EmptyCodeHash\<rparr>)"
    by (simp add: rlp_dec_defs gethRLP_def noCodeHashAccount_def)
  moreover have "CodeHash noCodeHashAccount \<noteq> HashBytes EmptyCodeHash"
    using HashBytes_nonempty [of EmptyCodeHash] by (simp add: noCodeHashAccount_def)
  moreover have "FullAccountRLP gethRLP [0xc4, 0x80, 0x80, 0x80, 0x80] \<noteq>
       encodeAccount gethRLP noCodeHashAccount"
    by (simp add: rlp_dec_defs rlp_enc_defs noCodeHashAccount_def)
  ultimately show ?thesis by blast
qed

text \<open>
  C6 (amended): for every state account whose code hash is not the empty slice,
  and whose slim form the codec encodes and decodes back, \<^verbatim>\<open>FullAccount\<close> of
  \<^verbatim>\<open>SlimAccountRLP\<close> is the account itself (nonce, balance, root and code hash,
  the nil root and code hash of the slim form mapped back to the empty-trie root
  and the empty-code hash), and \<^verbatim>\<open>FullAccountRLP\<close> of \<^verbatim>\<open>SlimAccountRLP\<close> is the
  RLP encoding of the account.
\<close>

theorem slim_roundtrip:
  assumes "CodeHash a \<noteq> []"
    and "encodeSlim rlp (toSlim a) = Some data"
    and "decodeSlim rlp data = Some (toSlim a)"
  shows "SlimAccountRLP rlp a = Returns data \<and> FullAccount rlp data = Some a
         \<and> FullAccountRLP rlp data = encodeAccount rlp a"
  using assms by (simp add: SlimAccountRLP_def FullAccount_def FullAccountRLP_def fromSlim_toSlim)


theorem slim_roundtrip_witness:
  "CodeHash contractAccount \<noteq> []
   \<and> encodeSlim gethRLP (toSlim contractAccount) = Some contractSlimRLP
   \<and> decodeSlim gethRLP contractSlimRLP = Some (toSlim contractAccount)
   \<and> SlimAccountRLP gethRLP contractAccount = Returns contractSlimRLP
   \<and> FullAccount gethRLP contractSlimRLP = Some contractAccount
   \<and> FullAccountRLP gethRLP contractSlimRLP = encodeAccount gethRLP contractAccount"
proof -
  have h1: "CodeHash contractAccount \<noteq> []"
    by (simp add: contractAccount_def HashBytes_def)
  have h2: "encodeSlim gethRLP (toSlim contractAccount) = Some contractSlimRLP"
    by (simp add: rlp_enc_defs contractAccount_def contractSlimRLP_def)
  have h3: "decodeSlim gethRLP contractSlimRLP = Some (toSlim contractAccount)"
    by (simp add: rlp_dec_defs rlp_enc_defs contractAccount_def contractSlimRLP_def)
  from slim_roundtrip [OF h1 h2 h3] h1 h2 h3 show ?thesis by blast
qed

subsection \<open>Heal callback\<close>

text \<open>
  C10: \<^verbatim>\<open>onHealState\<close> never returns an error. With one path and a value that
  does not decode as a state account it returns nil and leaves the state as it
  was: no snapshot entry, no counter. It returns (rather than panics in
  \<^verbatim>\<open>SlimAccountRLP\<close>) whenever the codec can encode the slim form of what it
  decoded.
\<close>

theorem onHealState_returns_nil:
  "(\<forall>e s'. onHealState rlp ops paths v s \<noteq> Returns (Some e, s'))
   \<and> (length paths = 1 \<and> decodeAccount rlp v = None
        \<longrightarrow> onHealState rlp ops paths v s = Returns (None, s))
   \<and> ((\<forall>a. decodeAccount rlp v = Some a \<longrightarrow> encodeSlim rlp (toSlim a) \<noteq> None)
        \<longrightarrow> (\<exists>s'. onHealState rlp ops paths v s = Returns (None, s')))"
  by (auto simp: onHealState_def SlimAccountRLP_def split: option.splits)

theorem onHealState_returns_nil_witness:
  "length [[1 :: byte]] = 1 \<and> decodeAccount gethRLP [0] = None
   \<and> onHealState gethRLP listBatch [[1]] [0] emptyHealState = Returns (None, emptyHealState)
   \<and> decodeAccount gethRLP (the (encodeAccount gethRLP contractAccount)) = Some contractAccount
   \<and> encodeSlim gethRLP (toSlim contractAccount) \<noteq> None
   \<and> (\<exists>s'. onHealState gethRLP listBatch [[1]] (the (encodeAccount gethRLP contractAccount))
              emptyHealState = Returns (None, s'))"
proof -
  have d0: "decodeAccount gethRLP [0] = None"
    by (simp add: rlp_dec_defs gethRLP_def)
  have d1: "decodeAccount gethRLP (the (encodeAccount gethRLP contractAccount)) = Some contractAccount"
    by (simp add: rlp_dec_defs rlp_enc_defs contractAccount_def)
  have e1: "encodeSlim gethRLP (toSlim contractAccount) \<noteq> None"
    by (simp add: gethRLP_def rlpEncodeSlim_def toSlim_def contractAccount_def)
  from onHealState_returns_nil [of gethRLP listBatch "[[1]]" "[0]" emptyHealState] d0
  have r0: "onHealState gethRLP listBatch [[1]] [0] emptyHealState = Returns (None, emptyHealState)"
    by simp
  from onHealState_returns_nil [of gethRLP listBatch "[[1]]"
      "the (encodeAccount gethRLP contractAccount)" emptyHealState] d1 e1
  have r1: "\<exists>s'. onHealState gethRLP listBatch [[1]] (the (encodeAccount gethRLP contractAccount))
              emptyHealState = Returns (None, s')"
    by simp
  from d0 d1 e1 r0 r1 show ?thesis by simp
qed

subsection \<open>Account range responses\<close>

lemma trimOverflow_None:
  "trimOverflow l hs i c = (None, c') \<Longrightarrow>
     (\<forall>h \<in> set hs. Big h \<le> l) \<and> c' = (c \<and> (\<forall>h \<in> set hs. Big h < l))"
  by (induction hs arbitrary: i c) (auto split: if_splits)

lemma trimOverflow_Some:
  "trimOverflow l hs i c = (Some j, c') \<Longrightarrow>
     i \<le> j \<and> j - i < length hs \<and> (\<forall>m < j - i. Big (hs ! m) \<le> l)
     \<and> Big (hs ! (j - i)) > l \<and> \<not> c'"
proof (induction hs arbitrary: i c)
  case Nil
  then show ?case by simp
next
  case (Cons h hs)
  show ?case
  proof (cases "Big h > l")
    case True
    with Cons.prems show ?thesis by (auto split: if_splits)
  next
    case False
    then obtain c0 where step: "trimOverflow l hs (Suc i) c0 = (Some j, c')"
      using Cons.prems by (auto split: if_splits)
    from Cons.IH [OF step] have ih: "Suc i \<le> j" "j - Suc i < length hs"
      "\<forall>m < j - Suc i. Big (hs ! m) \<le> l" "Big (hs ! (j - Suc i)) > l" "\<not> c'"
      by auto
    from ih(1) have eq: "j - i = Suc (j - Suc i)" by simp
    have "\<forall>m < j - i. Big ((h # hs) ! m) \<le> l"
    proof (intro allI impI)
      fix m assume "m < j - i"
      then show "Big ((h # hs) ! m) \<le> l"
        using False ih(3) eq by (cases m) auto
    qed
    with ih eq show ?thesis by auto
  qed
qed


lemma trimResponse_Returns:
  assumes "length accounts = length hashes"
  shows "\<exists>k. trimResponse lastH hashes accounts cont =
            Returns (take k hashes, take k accounts,
                     cont \<and> (\<forall>h \<in> set hashes. Big h < Big lastH))
          \<and> k \<le> length hashes
          \<and> (\<forall>i < k. Big (hashes ! i) \<le> Big lastH)
          \<and> (k < length hashes \<longrightarrow> Big (hashes ! k) > Big lastH)"
proof (cases "trimOverflow (Big lastH) hashes 0 cont")
  case (Pair r c')
  show ?thesis
  proof (cases r)
    case None
    from trimOverflow_None [OF Pair [unfolded None]]
    have all: "\<forall>h \<in> set hashes. Big h \<le> Big lastH"
      and c': "c' = (cont \<and> (\<forall>h \<in> set hashes. Big h < Big lastH))" by auto
    have "trimResponse lastH hashes accounts cont = Returns (hashes, accounts, c')"
      using Pair None by (simp add: trimResponse_def)
    with all c' assms show ?thesis
      by (intro exI [of _ "length hashes"]) auto
  next
    case (Some j)
    from trimOverflow_Some [OF Pair [unfolded Some]]
    have j: "j < length hashes" "\<forall>m < j. Big (hashes ! m) \<le> Big lastH"
      "Big (hashes ! j) > Big lastH" "\<not> c'" by auto
    from j(1,3) have "\<not> (\<forall>h \<in> set hashes. Big h < Big lastH)"
      by (metis nth_mem not_less_iff_gr_or_eq)
    moreover have "trimResponse lastH hashes accounts cont =
        Returns (take j hashes, take j accounts, c')"
      using Pair Some j(1) assms by (simp add: trimResponse_def)
    ultimately show ?thesis
      using j by (intro exI [of _ j]) auto
  qed
qed

lemma classifyCode_Returns:
  assumes "classifiable n (r, task)" and "i < n"
  shows "\<exists>task'. classifyCode db i account task = Returns task' \<and> classifiable n (r, task')"
proof -
  from assms(1) have "a_codeTasks task \<noteq> None" by (simp add: classifiable_def)
  from gm_put_Some [OF this]
  obtain ct where "gm_put (BytesToHash (CodeHash account)) () (a_codeTasks task) = Returns ct"
    "ct \<noteq> None"
    by blast
  with assms show ?thesis
    by (auto simp: classifyCode_def classifiable_def setAt_def)
qed

lemma classifyState_Returns:
  assumes "classifiable n (r, task)" and "i < n" and "i < length hashes"
  shows "\<exists>rt'. classifyState db hashes i account (r, task) = Returns rt' \<and> classifiable n rt'"
proof (cases "Root account \<noteq> EmptyRootHash \<and> \<not> HasTrieNode db (hashes ! i) (Root account)")
  case False
  with assms show ?thesis by (auto simp: classifyState_def)
next
  case True
  show ?thesis
  proof (cases "gm_get (SubTasks task) (hashes ! i)")
    case None
    from assms(1) have "stateTasks task \<noteq> None" by (simp add: classifiable_def)
    from gm_put_Some [OF this]
    obtain stt where "gm_put (hashes ! i) (Root account) (stateTasks task) = Returns stt"
      "stt \<noteq> None"
      by blast
    with assms True None show ?thesis
      by (auto simp: classifyState_def classifiable_def setAt_def)
  next
    case (Some subtasks)
    then have "SubTasks task \<noteq> None"
      by (cases "SubTasks task") (auto simp: gm_get_def gm_items_def)
    from gm_put_Some [OF this]
    obtain sub where sub: "gm_put (hashes ! i) (map (\<lambda>st. st\<lparr>st_root := Root account\<rparr>) subtasks)
        (SubTasks task) = Returns sub"
      by blast
    from assms(1) have "r \<noteq> None" by (simp add: classifiable_def)
    from gm_put_Some [OF this]
    obtain r' where r': "gm_put (hashes ! i) () r = Returns r'" "r' \<noteq> None"
      by blast
    from assms have len: "i < length (needHeal task)" "i < length (needState task)"
      by (simp_all add: classifiable_def)
    have "classifyState db hashes i account (r, task) =
        Returns (r', task\<lparr>SubTasks := sub, needHeal := (needHeal task)[i := True],
                            needState := (needState task)[i := True], pend := pend task + 1\<rparr>)"
      using True Some assms(3) len by (simp add: classifyState_def sub r' setAt_def)
    moreover have "classifiable n (r', task\<lparr>SubTasks := sub, needHeal := (needHeal task)[i := True],
                            needState := (needState task)[i := True], pend := pend task + 1\<rparr>)"
      using assms(1) r'(2) by (simp add: classifiable_def)
    ultimately show ?thesis by blast
  qed
qed

lemma classifyAccounts_Returns:
  "classifiable n rt \<Longrightarrow> i + length accounts \<le> n \<Longrightarrow> i + length accounts \<le> length hashes \<Longrightarrow>
     \<exists>rt'. classifyAccounts db hashes i accounts rt = Returns rt'"
proof (induction accounts arbitrary: i rt)
  case Nil
  then show ?case by simp
next
  case (Cons account rest)
  obtain r task where rt: "rt = (r, task)" by (cases rt)
  from Cons.prems have i: "i < n" "i < length hashes" by auto
  from classifyCode_Returns [OF Cons.prems(1) [unfolded rt] i(1)]
  obtain task1 where t1: "classifyCode db i account task = Returns task1" "classifiable n (r, task1)"
    by blast
  from classifyState_Returns [OF t1(2) i]
  obtain rt2 where t2: "classifyState db hashes i account (r, task1) = Returns rt2" "classifiable n rt2"
    by blast
  from Cons.IH [OF t2(2), of "Suc i"] Cons.prems
  obtain rt' where "classifyAccounts db hashes (Suc i) rest rt2 = Returns rt'" by auto
  with t1 t2 rt show ?case by simp
qed

lemma contract_slim: "SlimAccountRLP gethRLP contractAccount = Returns contractSlimRLP"
  by (simp add: rlp_enc_defs contractAccount_def contractSlimRLP_def)

lemma contract_full: "FullAccountRLP gethRLP contractSlimRLP \<noteq> None"
  by (simp add: rlp_dec_defs rlp_enc_defs contractAccount_def contractSlimRLP_def)

lemmas response_defs = processAccountResponse_def forwardAccountTask_def taskAt_def setTaskAt_def
  trimResponse_def classifyCode_def classifyState_def Big_def fullDB_def taskTo5_def
  registered11_def listGenerator_def newFullStateDownloadManager_def newTasks_def
  gm_make_def gm_has_def gm_get_def gm_items_def

text \<open>
  C5 (the code at a failing input). The task ending at hash 5 is registered
  under its id; the accounts need neither code nor state. For the response
  \<open>[3, 5, 7]\<close> the loop cuts the local slices to \<open>[3, 5]\<close> and makes the flags of the
  task for two accounts, but \<^verbatim>\<open>res\<close>, stored before the loop, still holds the
  three hashes: \<^verbatim>\<open>forwardAccountTask\<close> walks \<^verbatim>\<open>res.hashes\<close>, and at the third it
  indexes \<^verbatim>\<open>task.needCode\<close> out of range. For the response \<open>[5]\<close> with a
  continuation only the local \<open>cont\<close> is cleared: \<^verbatim>\<open>res.cont\<close> is still true, so
  the task, forwarded past its last hash, is not marked done.
\<close>

theorem processAccountResponse_integrates_untrimmed:
  "processAccountResponse fullDB gethRLP listGenerator 11 [3, 5, 7]
      [contractAccount, contractAccount, contractAccount] True registered11
     = Panics IndexOutOfRange
   \<and> (\<exists>st'. processAccountResponse fullDB gethRLP listGenerator 11 [5] [contractAccount] True
                registered11 = Returns st'
          \<and> map_option (\<lambda>t. (Next t, Last t, task_done t, res t))
               (gm_get (accountTasks (m_tasks (mgr st'))) 11) = Some (6, 5, False, None)
          \<and> snapshotsWritten st' = [(5, contractSlimRLP)])"
proof -
  obtain full where full: "FullAccountRLP gethRLP contractSlimRLP = Some full"
    using contract_full by blast
  have a: "processAccountResponse fullDB gethRLP listGenerator 11 [3, 5, 7]
      [contractAccount, contractAccount, contractAccount] True registered11
     = Panics IndexOutOfRange"
    by (simp add: response_defs contract_slim full Let_def)
  have b: "\<exists>st'. processAccountResponse fullDB gethRLP listGenerator 11 [5] [contractAccount] True
                registered11 = Returns st'
          \<and> map_option (\<lambda>t. (Next t, Last t, task_done t, res t))
               (gm_get (accountTasks (m_tasks (mgr st'))) 11) = Some (6, 5, False, None)
          \<and> snapshotsWritten st' = [(5, contractSlimRLP)]"
    by (simp add: response_defs contract_slim full Let_def incHash_def)
  from a b show ?thesis by blast
qed

subsection \<open>Block verification and insertion\<close>

lemma verifyAndInsertBlock_sig_source:
  assumes "k < length blocks"
  shows "verifyAndInsertBlock ops c (blocks ! k) (drop (k + 1) blocks) =
     (case spec_commitSig ops blocks k of
        Inl err \<Rightarrow> (c, Some (WrapParseCommitSig err))
      | Inr (sigBytes, bitmap) \<Rightarrow>
          (case VerifyHeaderSignature ops c (Header (blocks ! k)) sigBytes bitmap of
             Some err \<Rightarrow> (c, Some (sigVerifyErr err))
           | None \<Rightarrow>
               (case VerifyHeader ops c (Header (blocks ! k)) True of
                  Some err \<Rightarrow> (c, Some (WrapVerifyHeader err))
                | None \<Rightarrow>
                    (case InsertChain ops c [blocks ! k] False of
                       (c', Some err) \<Rightarrow> (c', Some (WrapInsertChain err))
                     | (c', None) \<Rightarrow> (c', None)))))"
proof (cases "k + 1 < length blocks")
  case True
  then have "drop (k + 1) blocks ! 0 = blocks ! (k + 1)" by simp
  with True show ?thesis
    by (simp add: verifyAndInsertBlock_def spec_commitSig_def)
next
  case False
  then show ?thesis
    by (simp add: verifyAndInsertBlock_def spec_commitSig_def)
qed

lemma verifyAndInsertBlock_sigVerifyErr:
  "snd (verifyAndInsertBlock ops c block nexts) = Some (sigVerifyErr e) \<longleftrightarrow>
     (\<exists>sigBytes bitmap.
        (if length nexts > 0
         then Inr (LastCommitSignature (Header (nexts ! 0)), LastCommitBitmap (Header (nexts ! 0)))
         else ParseCommitSigAndBitmap ops (CurrentCommitSig block)) = Inr (sigBytes, bitmap)
        \<and> VerifyHeaderSignature ops c (Header block) sigBytes bitmap = Some e)"
  by (auto simp: verifyAndInsertBlock_def split: sum.splits option.splits prod.splits)

lemma verifyAndInsertFrom_char:
  "i \<le> length blocks \<Longrightarrow>
   \<exists>n. i \<le> n \<and> n \<le> length blocks
     \<and> (\<forall>k. i \<le> k \<and> k < n \<longrightarrow> blockResult ops bc blocks k = None)
     \<and> (if n < length blocks
        then blockResult ops bc blocks n \<noteq> None
           \<and> verifyAndInsertFrom ops blocks i (chainBefore ops bc blocks i) =
               (int n, blockResult ops bc blocks n, chainBefore ops bc blocks (Suc n))
        else verifyAndInsertFrom ops blocks i (chainBefore ops bc blocks i) =
               (int (length blocks), None, chainBefore ops bc blocks (length blocks)))"
proof (induction "length blocks - i" arbitrary: i)
  case 0
  then have "i = length blocks" by simp
  then show ?case
    by (intro exI [of _ i]) (auto simp: verifyAndInsertFrom.simps)
next
  case (Suc d)
  then have lt: "i < length blocks" by simp
  obtain c' r where step: "verifyAndInsertBlock ops (chainBefore ops bc blocks i) (blocks ! i)
      (drop (i + 1) blocks) = (c', r)" by (cases "verifyAndInsertBlock ops (chainBefore ops bc blocks i) (blocks ! i)
      (drop (i + 1) blocks)")
  then have c': "c' = chainBefore ops bc blocks (Suc i)" and r: "r = blockResult ops bc blocks i"
    by (simp_all add: blockResult_def)
  show ?case
  proof (cases r)
    case (Some err)
    have "verifyAndInsertFrom ops blocks i (chainBefore ops bc blocks i) = (int i, Some err, c')"
      using lt step Some by (subst verifyAndInsertFrom.simps) simp
    moreover have "blockResult ops bc blocks i \<noteq> None"
      using r Some by (metis option.distinct(1))
    ultimately show ?thesis
      using lt c' r Some by (intro exI [of _ i]) auto
  next
    case None
    have "verifyAndInsertFrom ops blocks i (chainBefore ops bc blocks i) =
        verifyAndInsertFrom ops blocks (Suc i) c'"
      using lt step None by (subst verifyAndInsertFrom.simps) simp
    then have unfold: "verifyAndInsertFrom ops blocks i (chainBefore ops bc blocks i) =
        verifyAndInsertFrom ops blocks (Suc i) (chainBefore ops bc blocks (Suc i))"
      by (simp only: c')
    from Suc.hyps(2) lt have "d = length blocks - Suc i" by simp
    from Suc.hyps(1) [OF this] lt
    obtain n where n: "Suc i \<le> n" "n \<le> length blocks"
      "\<forall>k. Suc i \<le> k \<and> k < n \<longrightarrow> blockResult ops bc blocks k = None"
      "if n < length blocks
        then blockResult ops bc blocks n \<noteq> None
           \<and> verifyAndInsertFrom ops blocks (Suc i) (chainBefore ops bc blocks (Suc i)) =
               (int n, blockResult ops bc blocks n, chainBefore ops bc blocks (Suc n))
        else verifyAndInsertFrom ops blocks (Suc i) (chainBefore ops bc blocks (Suc i)) =
               (int (length blocks), None, chainBefore ops bc blocks (length blocks))"
      by auto
    have "\<forall>k. i \<le> k \<and> k < n \<longrightarrow> blockResult ops bc blocks k = None"
    proof (intro allI impI)
      fix k assume "i \<le> k \<and> k < n"
      then show "blockResult ops bc blocks k = None"
        using n(3) r None by (cases "k = i") auto
    qed
    with n unfold show ?thesis
      by (intro exI [of _ n]) (auto split: if_splits)
  qed
qed

text \<open>
  C8: \<^verbatim>\<open>verifyAndInsertBlocks\<close> goes through the blocks in order. There is a
  number \<open>n\<close> of blocks that were verified and inserted without error, each on
  the chain its predecessors left; when \<open>n\<close> is less than the number of blocks,
  block \<open>n\<close> failed and the result is \<open>n\<close> with that first error, otherwise the
  result is the number of blocks and no error. Block \<open>k\<close> is verified against
  the last-commit signature and bitmap of block \<open>k + 1\<close> when that exists and
  against the signature parsed from its own commit signature otherwise; a failed
  signature verification is returned as \<^verbatim>\<open>sigVerifyErr\<close>, and the other failures
  as wrapped errors.
\<close>

theorem verifyAndInsertBlocks_in_order:
  "(\<exists>n \<le> length blocks.
      (\<forall>k < n. blockResult ops bc blocks k = None)
      \<and> (if n < length blocks
         then blockResult ops bc blocks n \<noteq> None
            \<and> verifyAndInsertBlocks ops bc blocks =
                (int n, blockResult ops bc blocks n, chainBefore ops bc blocks (Suc n))
         else verifyAndInsertBlocks ops bc blocks =
                (int (length blocks), None, chainBefore ops bc blocks (length blocks))))
   \<and> (\<forall>k < length blocks. \<forall>c.
        verifyAndInsertBlock ops c (blocks ! k) (drop (k + 1) blocks) =
          (case spec_commitSig ops blocks k of
             Inl err \<Rightarrow> (c, Some (WrapParseCommitSig err))
           | Inr (sigBytes, bitmap) \<Rightarrow>
               (case VerifyHeaderSignature ops c (Header (blocks ! k)) sigBytes bitmap of
                  Some err \<Rightarrow> (c, Some (sigVerifyErr err))
                | None \<Rightarrow>
                    (case VerifyHeader ops c (Header (blocks ! k)) True of
                       Some err \<Rightarrow> (c, Some (WrapVerifyHeader err))
                     | None \<Rightarrow>
                         (case InsertChain ops c [blocks ! k] False of
                            (c', Some err) \<Rightarrow> (c', Some (WrapInsertChain err))
                          | (c', None) \<Rightarrow> (c', None))))))"
proof (intro conjI allI impI)
  have start: "chainBefore ops bc blocks 0 = bc" by simp
  from verifyAndInsertFrom_char [OF le0, of blocks ops bc]
  obtain n where n: "n \<le> length blocks"
    "\<forall>k. 0 \<le> k \<and> k < n \<longrightarrow> blockResult ops bc blocks k = None"
    "if n < length blocks
        then blockResult ops bc blocks n \<noteq> None
           \<and> verifyAndInsertFrom ops blocks 0 (chainBefore ops bc blocks 0) =
               (int n, blockResult ops bc blocks n, chainBefore ops bc blocks (Suc n))
        else verifyAndInsertFrom ops blocks 0 (chainBefore ops bc blocks 0) =
               (int (length blocks), None, chainBefore ops bc blocks (length blocks))"
    by blast
  from n(2) have before: "\<forall>k < n. blockResult ops bc blocks k = None" by simp
  from n(3) have "if n < length blocks
         then blockResult ops bc blocks n \<noteq> None
            \<and> verifyAndInsertBlocks ops bc blocks =
                (int n, blockResult ops bc blocks n, chainBefore ops bc blocks (Suc n))
         else verifyAndInsertBlocks ops bc blocks =
                (int (length blocks), None, chainBefore ops bc blocks (length blocks))"
    unfolding verifyAndInsertBlocks_def start .
  with n(1) before
  show "\<exists>n \<le> length blocks.
      (\<forall>k < n. blockResult ops bc blocks k = None)
      \<and> (if n < length blocks
         then blockResult ops bc blocks n \<noteq> None
            \<and> verifyAndInsertBlocks ops bc blocks =
                (int n, blockResult ops bc blocks n, chainBefore ops bc blocks (Suc n))
         else verifyAndInsertBlocks ops bc blocks =
                (int (length blocks), None, chainBefore ops bc blocks (length blocks)))"
    by blast
next
  fix k c assume "k < length blocks"
  then show "verifyAndInsertBlock ops c (blocks ! k) (drop (k + 1) blocks) =
          (case spec_commitSig ops blocks k of
             Inl err \<Rightarrow> (c, Some (WrapParseCommitSig err))
           | Inr (sigBytes, bitmap) \<Rightarrow>
               (case VerifyHeaderSignature ops c (Header (blocks ! k)) sigBytes bitmap of
                  Some err \<Rightarrow> (c, Some (sigVerifyErr err))
                | None \<Rightarrow>
                    (case VerifyHeader ops c (Header (blocks ! k)) True of
                       Some err \<Rightarrow> (c, Some (WrapVerifyHeader err))
                     | None \<Rightarrow>
                         (case InsertChain ops c [blocks ! k] False of
                            (c', Some err) \<Rightarrow> (c', Some (WrapInsertChain err))
                          | (c', None) \<Rightarrow> (c', None)))))"
    by (rule verifyAndInsertBlock_sig_source)
qed


theorem verifyAndInsertBlocks_in_order_witness:
  "blockResult countingChain 0 [block0, block1] 0 = None
   \<and> blockResult countingChain 0 [block0, block1] (Suc 0) = Some (sigVerifyErr ''bad signature'')
   \<and> spec_commitSig countingChain [block0, block1] 0 = Inr ([1], [7])
   \<and> spec_commitSig countingChain [block0, block1] (Suc 0) = Inr ([2], [7])
   \<and> verifyAndInsertBlocks countingChain 0 [block0, block1] =
       (1, Some (sigVerifyErr ''bad signature''), Suc 0)"
proof -
  have r0: "blockResult countingChain 0 [block0, block1] 0 = None"
    by (simp add: blockResult_def verifyAndInsertBlock_def countingChain_def block0_def block1_def)
  have c1: "chainBefore countingChain 0 [block0, block1] (Suc 0) = Suc 0"
    by (simp add: verifyAndInsertBlock_def countingChain_def block0_def block1_def)
  have r1: "blockResult countingChain 0 [block0, block1] (Suc 0) =
      Some (sigVerifyErr ''bad signature'')"
    by (simp add: blockResult_def c1) (simp add: verifyAndInsertBlock_def countingChain_def block1_def)
  have c2: "chainBefore countingChain 0 [block0, block1] (Suc (Suc 0)) = Suc 0"
    by (simp add: c1 del: chainBefore.simps(2) add: chainBefore.simps(2) [of _ _ _ "Suc 0"])
       (simp add: verifyAndInsertBlock_def countingChain_def block1_def)
  have s0: "spec_commitSig countingChain [block0, block1] 0 = Inr ([1], [7])"
    by (simp add: spec_commitSig_def block1_def)
  have s1: "spec_commitSig countingChain [block0, block1] (Suc 0) = Inr ([2], [7])"
    by (simp add: spec_commitSig_def countingChain_def block1_def)
  from verifyAndInsertBlocks_in_order [of "[block0, block1]" countingChain 0]
  obtain n where n: "n \<le> length [block0, block1]"
    "\<forall>k < n. blockResult countingChain 0 [block0, block1] k = None"
    "if n < length [block0, block1]
         then blockResult countingChain 0 [block0, block1] n \<noteq> None
            \<and> verifyAndInsertBlocks countingChain 0 [block0, block1] =
                (int n, blockResult countingChain 0 [block0, block1] n,
                 chainBefore countingChain 0 [block0, block1] (Suc n))
         else verifyAndInsertBlocks countingChain 0 [block0, block1] =
                (int (length [block0, block1]), None,
                 chainBefore countingChain 0 [block0, block1] (length [block0, block1]))"
    by blast
  from n(2) r1 have "\<not> Suc 0 < n" by auto
  moreover have "n \<noteq> 0"
  proof
    assume "n = 0"
    with n(3) r0 show False by simp
  qed
  ultimately have "n = Suc 0" by simp
  with n(3) r1 c2 have "verifyAndInsertBlocks countingChain 0 [block0, block1] =
       (1, Some (sigVerifyErr ''bad signature''), Suc 0)"
    by simp
  with r0 r1 s0 s1 show ?thesis by blast
qed


subsection \<open>Task ids\<close>

lemma genTaskID_no_panic: "genTaskID m draws \<noteq> Panics f"
  by (induction draws) auto

lemma genTaskID_Returns:
  "genTaskID m draws = Returns (taskID, rest) \<Longrightarrow>
     taskID \<noteq> 0 \<and> \<not> gm_has m taskID \<and> taskID \<in> set draws"
  by (induction draws) (auto split: if_splits)

lemma genTaskID_total:
  "\<exists>d \<in> set draws. d \<noteq> 0 \<and> \<not> gm_has m d \<Longrightarrow> \<exists>taskID rest. genTaskID m draws = Returns (taskID, rest)"
  by (induction draws) auto

subsection \<open>Sync status\<close>

lemma chunkLoop_nil_map:
  "accountTasks t = None \<Longrightarrow>
     chunkLoop (Suc k) nextH draws t = Panics NilMapWrite \<or> chunkLoop (Suc k) nextH draws t = Diverges"
proof -
  assume nil: "accountTasks t = None"
  show ?thesis
  proof (cases "genTaskID (accountTasks t) draws")
    case (Returns r)
    then show ?thesis
      using nil by (cases r) (simp add: Let_def addAccountTask_def gm_put_def)
  next
    case (Panics f)
    then show ?thesis using genTaskID_no_panic by blast
  next
    case Diverges
    then show ?thesis by (simp add: Let_def)
  qed
qed

text \<open>
  C4 (the code at a failing input): with no stored status \<^verbatim>\<open>loadSyncStatus\<close> sets
  \<^verbatim>\<open>s.tasks.accountTasks\<close> to nil and then assigns the first new task to an entry
  of it. Whatever the manager and the random source, the call panics on that
  assignment (or draws ids for ever); it never returns sixteen tasks. With the
  draw 1 it panics at once.
\<close>

theorem loadSyncStatus_fresh_panics:
  "(loadSyncStatus unmarshal None draws s = Panics NilMapWrite
      \<or> loadSyncStatus unmarshal None draws s = Diverges)
   \<and> loadSyncStatus unmarshal None (1 # draws) s = Panics NilMapWrite"
proof -
  have nil: "accountTasks ((m_tasks s)\<lparr>accountTasks := None\<rparr>) = None" by simp
  have "\<And>ds. chunkLoop accountConcurrency 0 ds ((m_tasks s)\<lparr>accountTasks := None\<rparr>) = Panics NilMapWrite
      \<or> chunkLoop accountConcurrency 0 ds ((m_tasks s)\<lparr>accountTasks := None\<rparr>) = Diverges"
    using chunkLoop_nil_map [OF nil, of 15 0] by (simp add: accountConcurrency_def)
  from this [of draws] have general: "loadSyncStatus unmarshal None draws s = Panics NilMapWrite
      \<or> loadSyncStatus unmarshal None draws s = Diverges"
    unfolding loadSyncStatus_def by (elim disjE) simp_all
  have "\<And>k. chunkLoop (Suc k) 0 (1 # draws) ((m_tasks s)\<lparr>accountTasks := None\<rparr>) =
      Panics NilMapWrite"
    by (simp add: Let_def gm_has_def gm_get_def gm_items_def addAccountTask_def gm_put_def)
  from this [of 15] have "loadSyncStatus unmarshal None (1 # draws) s = Panics NilMapWrite"
    by (simp add: loadSyncStatus_def accountConcurrency_def)
  with general show ?thesis by blast
qed

lemma loadSyncStatus_undecodable:
  "unmarshal raw = None \<Longrightarrow>
     loadSyncStatus unmarshal (Some raw) draws s = loadSyncStatus unmarshal None draws s"
  by (simp add: loadSyncStatus_def)

subsection \<open>Batch assembly\<close>

text \<open>
  C1 (the code at a failing input): on a manager as
  \<^verbatim>\<open>newFullStateDownloadManager\<close> makes it, \<^verbatim>\<open>getBatchFromRetries\<close> leaves
  \<open>storages\<close> nil and reads \<^verbatim>\<open>storages.accounts\<close>: \<^verbatim>\<open>GetNextBatch\<close> panics with a nil
  pointer dereference, for every request size that is not negative, and so with
  the retries registry holding no storage bundle and no heal task.
\<close>

theorem GetNextBatch_new_manager_panics:
  "GetNextBatch env fuel draws (newFullStateDownloadManager sch) =
     Panics (if StatesPerRequest env < 0 then MakeSliceCap else NilDeref)"
  by (simp add: GetNextBatch_def getBatchFromRetries_def retryStorages_def
      newFullStateDownloadManager_def newTasks_def gm_make_def gm_items_def gm_len_def)


lemmas batch_defs = getBatchFromUnprocessed_def healPending_def healPool_def setHealPool_def
  queueMissing_def trieRequestCap_def sortByAccountPath_def sortRows_def Merge_def Len_def
  fillBundle_def clampRequestSize_def addHealerTask_def addStorageTaskBundle_def addAccountTask_def
  addCodeTask_def gm_put_def gm_get_def gm_has_def gm_items_def gm_len_def gm_delete_def gm_make_def
  newFullStateDownloadManager_def newTasks_def newAccountTask_def
  maxRequestSize_def minRequestSize_def maxTrieRequestCount_def maxCodeRequestCount_def

text \<open>
  The heal phase of \<^verbatim>\<open>getBatchFromUnprocessed\<close> keeps the pool of pending heal
  tasks in \<^verbatim>\<open>tasks.healer\<close> under key 0, a heal task whose id is zero, next to the
  heal task it issues under the drawn id 8.
\<close>

lemma heal_pool_under_key_zero:
  "(case getBatchFromUnprocessed healEnv (Suc (Suc 0)) 10 True [9, 8] healReady of
      Returns (b, rest, s') \<Rightarrow>
        map (\<lambda>(k, h). (k, map_option h_id h)) (gm_items (healer (m_tasks s'))) =
          [(0, Some 0), (8, Some 8)]
    | _ \<Rightarrow> False)"
  by (simp add: batch_defs healEnv_def healReady_def gethNewSyncPath_def hexToCompact_def
      Let_def AList.delete_eq)

lemma unprocAccounts_skips_zero_ids:
  "list_all (\<lambda>(k, task). task_id task = 0) todo \<Longrightarrow>
     unprocAccounts n todo accounts s = Returns (int (length accounts) = n \<and> todo \<noteq> [], accounts, s)"
  by (induction todo) auto

lemma restored_ids:
  "list_all (\<lambda>(k, task). task_id task = 0) (map (\<lambda>(k, x). (k, restoreAccountTask x)) xs)"
  by (induction xs) (auto simp: restoreAccountTask_def)

lemma restored_keys:
  "map fst (map (\<lambda>(k, x). (k, restoreAccountTask x)) xs) = map fst xs"
  by (induction xs) auto

lemma restored_id_list:
  "map (\<lambda>(k, task). task_id task) (map (\<lambda>(k, x). (k, restoreAccountTask x)) xs)
     = replicate (length xs) 0"
  by (induction xs) (auto simp: restoreAccountTask_def)

text \<open>
  C3 (the code at a failing input). \<^verbatim>\<open>loadSyncStatus\<close> with a saved status that
  decodes: the account tasks are taken over as \<^verbatim>\<open>json.Unmarshal\<close> built them, and
  the field \<^verbatim>\<open>id\<close>, not being exported, is zero in each, whatever key the task is
  stored under. So after a resume every account task has the id zero, which no
  two of them can then tell apart, and the loop of \<^verbatim>\<open>getBatchFromUnprocessed\<close> that
  hands out account tasks, which skips a task whose id is zero, hands out none
  of them and leaves the manager as it is. The saved status with the keys 5 and
  6 is an instance.
\<close>

theorem loadSyncStatus_resumed_ids_zero:
  "(\<exists>s'. loadSyncStatus (\<lambda>raw. Some progress) (Some status) draws s = Returns (s', draws)
      \<and> map fst (gm_items (accountTasks (m_tasks s'))) = map fst (gm_items (Tasks progress))
      \<and> map (\<lambda>(k, task). task_id task) (gm_items (accountTasks (m_tasks s')))
          = replicate (gm_len (Tasks progress)) 0
      \<and> (\<exists>ret. unprocAccounts n (gm_items (accountTasks (m_tasks s'))) [] s'
                  = Returns (ret, [], s')))
   \<and> (\<exists>s'. loadSyncStatus (\<lambda>raw. Some savedProgress) (Some []) [] (newFullStateDownloadManager ())
              = Returns (s', [])
      \<and> map (\<lambda>(k, task). (k, task_id task)) (gm_items (accountTasks (m_tasks s')))
          = [(5, 0), (6, 0)])"
proof -
  let ?loaded = "map_option (map (\<lambda>(k, x). (k, restoreAccountTask x))) (Tasks progress)"
  let ?items = "map (\<lambda>(k, x). (k, restoreAccountTask x)) (gm_items (Tasks progress))"
  have items: "gm_items ?loaded = ?items"
    by (cases "Tasks progress") (simp_all add: gm_items_def)
  obtain s' where run: "loadSyncStatus (\<lambda>raw. Some progress) (Some status) draws s = Returns (s', draws)"
    and reg: "accountTasks (m_tasks s') = ?loaded"
    by (simp add: loadSyncStatus_def Let_def)
  have keys: "map fst (gm_items (accountTasks (m_tasks s'))) = map fst (gm_items (Tasks progress))"
    unfolding reg items by (rule restored_keys)
  have ids: "map (\<lambda>(k, task). task_id task) (gm_items (accountTasks (m_tasks s')))
          = replicate (gm_len (Tasks progress)) 0"
    unfolding reg items gm_len_def by (rule restored_id_list)
  have "list_all (\<lambda>(k, task). task_id task = 0) (gm_items (accountTasks (m_tasks s')))"
    unfolding reg items by (rule restored_ids)
  from unprocAccounts_skips_zero_ids [OF this, of n "[]" s']
  have none: "\<exists>ret. unprocAccounts n (gm_items (accountTasks (m_tasks s'))) [] s' = Returns (ret, [], s')"
    by blast
  have inst: "\<exists>s'. loadSyncStatus (\<lambda>raw. Some savedProgress) (Some []) [] (newFullStateDownloadManager ())
              = Returns (s', [])
      \<and> map (\<lambda>(k, task). (k, task_id task)) (gm_items (accountTasks (m_tasks s')))
          = [(5, 0), (6, 0)]"
    by (simp add: loadSyncStatus_def savedProgress_def restoreAccountTask_def gm_items_def
        newFullStateDownloadManager_def Let_def)
  from run keys ids none inst show ?thesis by blast
qed

subsection \<open>Heal request ordering\<close>

lemma bytes_Compare_range: "bytes_Compare a b = - 1 \<or> bytes_Compare a b = 0 \<or> bytes_Compare a b = 1"
  by (induction a b rule: bytes_Compare.induct) auto

lemma bytes_Compare_less: "bytes_Compare a b = - 1 \<longleftrightarrow> ord_class.lexordp a b"
  by (induction a b rule: bytes_Compare.induct) auto

lemma bytes_Compare_greater: "bytes_Compare a b = 1 \<longleftrightarrow> ord_class.lexordp b a"
  by (induction a b rule: bytes_Compare.induct) auto

lemma bytes_Compare_equal: "bytes_Compare a b = 0 \<longleftrightarrow> a = b"
  by (induction a b rule: bytes_Compare.induct) auto

lemma pathLess_spec:
  assumes "length a = 1 \<or> length a = 2" and "length b = 1 \<or> length b = 2"
  shows "pathLess a b = spec_pathLess a b"
proof -
  let ?c = "bytes_Compare (a ! 0) (b ! 0)"
  consider "?c = - 1" | "?c = 0" | "?c = 1" using bytes_Compare_range by blast
  then show ?thesis
  proof cases
    case 1
    then show ?thesis
      by (simp add: pathLess_def spec_pathLess_def bytes_Compare_less)
  next
    case 2
    then have eq: "a ! 0 = b ! 0" by (simp add: bytes_Compare_equal)
    have irr: "\<not> ord_class.lexordp (b ! 0) (b ! 0)" by (simp add: lexordp_irreflexive')
    have lt: "bytes_Compare (a ! 1) (b ! 1) < 0 \<longleftrightarrow> ord_class.lexordp (a ! 1) (b ! 1)"
      using bytes_Compare_range [of "a ! 1" "b ! 1"] bytes_Compare_less [of "a ! 1" "b ! 1"]
      by auto
    from 2 eq irr lt assms show ?thesis
      by (auto simp: pathLess_def spec_pathLess_def)
  next
    case 3
    then have gt: "ord_class.lexordp (b ! 0) (a ! 0)" by (simp add: bytes_Compare_greater)
    then have "\<not> ord_class.lexordp (a ! 0) (b ! 0)" and "a ! 0 \<noteq> b ! 0"
      using lexordp_antisym lexordp_irreflexive' by auto
    with 3 show ?thesis
      by (simp add: pathLess_def spec_pathLess_def)
  qed
qed

lemma spec_pathLess_irrefl: "\<not> spec_pathLess a a"
  by (simp add: spec_pathLess_def lexordp_irreflexive')

lemma spec_pathLess_trans:
  assumes "spec_pathLess a b" and "spec_pathLess b c"
  shows "spec_pathLess a c"
  using assms unfolding spec_pathLess_def
  by (auto dest: lexordp_trans)








lemma mset_insertPos: "mset (insertPos lt i js) = add_mset i (mset js)"
  by (induction js) simp_all

lemma set_insertPos: "set (insertPos lt i js) = insert i (set js)"
  by (induction js) auto

lemma sorted_insertPos:
  assumes irr: "\<forall>a \<in> A. \<not> lt a a"
    and tr: "\<forall>a \<in> A. \<forall>b \<in> A. \<forall>c \<in> A. lt a b \<longrightarrow> lt b c \<longrightarrow> lt a c"
    and i: "i \<in> A" and js: "set js \<subseteq> A"
    and s: "sorted_wrt (\<lambda>a b. \<not> lt b a) js"
  shows "sorted_wrt (\<lambda>a b. \<not> lt b a) (insertPos lt i js)"
  using js s
proof (induction js)
  case Nil
  then show ?case by simp
next
  case (Cons j js)
  from Cons.prems have j: "j \<in> A" and sub: "set js \<subseteq> A"
    and after: "\<forall>k \<in> set js. \<not> lt k j" and s': "sorted_wrt (\<lambda>a b. \<not> lt b a) js"
    by simp_all
  show ?case
  proof (cases "lt i j")
    case True
    have "\<not> lt j i"
    proof
      assume "lt j i"
      with True tr i j have "lt i i" by blast
      with irr i show False by blast
    qed
    moreover have "\<forall>k \<in> set js. \<not> lt k i"
    proof
      fix k assume k: "k \<in> set js"
      show "\<not> lt k i"
      proof
        assume "lt k i"
        with True tr i j k sub have "lt k j" by blast
        with after k show False by blast
      qed
    qed
    ultimately show ?thesis using True Cons.prems(2) by simp
  next
    case False
    with after Cons.IH [OF sub s'] show ?thesis
      by (simp add: set_insertPos)
  qed
qed

lemma insertionOrder_Suc: "insertionOrder lt (Suc n) = insertPos lt n (insertionOrder lt n)"
  by (simp add: insertionOrder_def)

lemma insertionOrder_sortsRows:
  assumes irr: "\<forall>a < n. \<not> lt a a"
    and tr: "\<forall>a < n. \<forall>b < n. \<forall>c < n. lt a b \<longrightarrow> lt b c \<longrightarrow> lt a c"
  shows "sortsRows insertionOrder lt n"
proof -
  have irr': "\<forall>a \<in> {0..<n}. \<not> lt a a" using irr by simp
  have tr': "\<forall>a \<in> {0..<n}. \<forall>b \<in> {0..<n}. \<forall>c \<in> {0..<n}. lt a b \<longrightarrow> lt b c \<longrightarrow> lt a c"
  proof (intro ballI impI)
    fix a b c
    assume "a \<in> {0..<n}" and "b \<in> {0..<n}" and "c \<in> {0..<n}" and ab: "lt a b" and bc: "lt b c"
    then have "a < n" and "b < n" and "c < n" by simp_all
    with tr ab bc show "lt a c" by blast
  qed
  have step: "k \<le> n \<Longrightarrow> mset (insertionOrder lt k) = mset [0..<k] \<and>
          sorted_wrt (\<lambda>a b. \<not> lt b a) (insertionOrder lt k)" for k
  proof (induction k)
    case 0
    then show ?case by (simp add: insertionOrder_def)
  next
    case (Suc k)
    then have m: "mset (insertionOrder lt k) = mset [0..<k]"
      and s: "sorted_wrt (\<lambda>a b. \<not> lt b a) (insertionOrder lt k)" by simp_all
    from m have "set (insertionOrder lt k) = set [0..<k]" by (rule mset_eq_setD)
    with Suc.prems have sub: "set (insertionOrder lt k) \<subseteq> {0..<n}" by auto
    from Suc.prems have k: "k \<in> {0..<n}" by simp
    have s': "sorted_wrt (\<lambda>a b. \<not> lt b a) (insertPos lt k (insertionOrder lt k))"
      by (rule sorted_insertPos [OF irr' tr' k sub s])
    have m': "mset (insertPos lt k (insertionOrder lt k)) = mset [0..<Suc k]"
      by (simp add: mset_insertPos m)
    from s' m' show ?case
      by (simp only: insertionOrder_Suc simp_thms)
  qed
  from step [of n] show ?thesis by (simp add: sortsRows_def)
qed

lemma insertionOrder_sorts_paths:
  assumes len: "length hashes = length paths"
    and segs: "\<forall>p \<in> set paths. length (N p) = 1 \<or> length (N p) = 2"
  shows "sortsRows insertionOrder
      (Less \<lparr> s_paths = paths, s_hashes = hashes, s_syncPaths = map N paths \<rparr>) (length hashes)"
proof (rule insertionOrder_sortsRows)
  let ?t = "\<lparr> s_paths = paths, s_hashes = hashes, s_syncPaths = map N paths \<rparr>"
  have L: "Less ?t a b = spec_pathLess (N (paths ! a)) (N (paths ! b))"
    if "a < length hashes" and "b < length hashes" for a b
  proof -
    from that len segs have "length (N (paths ! a)) = 1 \<or> length (N (paths ! a)) = 2"
      and "length (N (paths ! b)) = 1 \<or> length (N (paths ! b)) = 2" by auto
    from pathLess_spec [OF this] that len show ?thesis by (simp add: Less_def)
  qed
  show "\<forall>a < length hashes. \<not> Less ?t a a"
    using L spec_pathLess_irrefl by simp
  show "\<forall>a < length hashes. \<forall>b < length hashes. \<forall>c < length hashes.
      Less ?t a b \<longrightarrow> Less ?t b c \<longrightarrow> Less ?t a c"
    using L spec_pathLess_trans by blast
qed

lemma gethNewSyncPath_segments:
  "length (gethNewSyncPath path) = 1 \<or> length (gethNewSyncPath path) = 2"
  by (simp add: gethNewSyncPath_def)

lemma Swap_permutes:
  assumes "i < length p" and "j < length p"
  shows "Swap \<lparr> s_paths = map ((!) paths) p, s_hashes = map ((!) hashes) p,
                 s_syncPaths = map ((!) syncPaths) p \<rparr> i j =
         \<lparr> s_paths = map ((!) paths) (p[i := p ! j, j := p ! i]),
           s_hashes = map ((!) hashes) (p[i := p ! j, j := p ! i]),
           s_syncPaths = map ((!) syncPaths) (p[i := p ! j, j := p ! i]) \<rparr>"
  using assms by (simp add: Swap_def map_update)

text \<open>
  Whatever calls of \<^verbatim>\<open>Swap\<close> a sort makes on \<open>n\<close> rows, it leaves the three slices
  permuted by one and the same permutation of the positions.
\<close>

lemma Swaps_permute:
  assumes "\<forall>(i, j) \<in> set swaps. i < n \<and> j < n"
  shows "\<exists>p. mset p = mset [0..<n] \<and>
     foldl (\<lambda>t (i, j). Swap t i j)
       \<lparr> s_paths = map ((!) paths) [0..<n], s_hashes = map ((!) hashes) [0..<n],
         s_syncPaths = map ((!) syncPaths) [0..<n] \<rparr> swaps =
     \<lparr> s_paths = map ((!) paths) p, s_hashes = map ((!) hashes) p,
       s_syncPaths = map ((!) syncPaths) p \<rparr>"
  using assms
proof (induction swaps rule: rev_induct)
  case Nil
  show ?case by (intro exI [of _ "[0..<n]"]) simp
next
  case (snoc x swaps)
  obtain i j where x: "x = (i, j)" by (cases x)
  from snoc.prems x have ij: "i < n" "j < n" and rest: "\<forall>(i, j) \<in> set swaps. i < n \<and> j < n"
    by auto
  from snoc.IH [OF rest] obtain p where p: "mset p = mset [0..<n]"
    and f: "foldl (\<lambda>t (i, j). Swap t i j)
       \<lparr> s_paths = map ((!) paths) [0..<n], s_hashes = map ((!) hashes) [0..<n],
         s_syncPaths = map ((!) syncPaths) [0..<n] \<rparr> swaps =
     \<lparr> s_paths = map ((!) paths) p, s_hashes = map ((!) hashes) p,
       s_syncPaths = map ((!) syncPaths) p \<rparr>"
    by blast
  from p have "length p = n" by (metis length_upt mset_eq_length minus_nat.diff_0)
  with ij have l: "i < length p" "j < length p" by simp_all
  have "mset (p[i := p ! j, j := p ! i]) = mset p"
    using l by (simp add: mset_swap)
  with p have p': "mset (p[i := p ! j, j := p ! i]) = mset [0..<n]" by simp
  from f x Swap_permutes [OF l, of paths hashes syncPaths] p' show ?case
    by (intro exI [of _ "p[i := p ! j, j := p ! i]"]) simp
qed












end
